theory Spec2Isabelle
  imports Complex_Main "HOL-Library.Log_Nat"
begin

section \<open>JavaScript values held by the models\<close>

text \<open>
  The editor stores plain object literals in its models and copies them through
  \<^verbatim>\<open>JSON.stringify\<close> and \<^verbatim>\<open>JSON.parse\<close>. An object is the list of its own
  properties in insertion order; a property may hold \<^verbatim>\<open>undefined\<close> (\<open>None\<close>), a string
  or a number. Numbers stored in objects are always integers here (grid indices).
  Reading a property that the object does not have yields \<^verbatim>\<open>undefined\<close>.
\<close>

datatype prim = Str string | Num int

type_synonym jsobject = "(string \<times> prim option) list"

definition getp :: "jsobject \<Rightarrow> string \<Rightarrow> prim option" where
  "getp ob k = (case map_of ob k of Some v \<Rightarrow> v | None \<Rightarrow> None)"

text \<open>JavaScript truthiness of a string or number (\<^verbatim>\<open>undefined\<close> is falsy).\<close>

definition truthy :: "prim \<Rightarrow> bool" where
  "truthy p = (case p of Str s \<Rightarrow> s \<noteq> [] | Num k \<Rightarrow> k \<noteq> 0)"

text \<open>
  An entry of the 2D model's \<^verbatim>\<open>cells\<close> array: an object, or a bare string or number
  (the select branch can store the value of \<^verbatim>\<open>prevType\<close> itself). A property read on a
  bare string or number such as \<^verbatim>\<open>'pitch'.type\<close> yields \<^verbatim>\<open>undefined\<close>.
\<close>

datatype cellval = Obj jsobject | Prim prim

definition cell_get :: "cellval \<Rightarrow> string \<Rightarrow> prim option" where
  "cell_get c k = (case c of Obj ob \<Rightarrow> getp ob k | Prim _ \<Rightarrow> None)"

subsection \<open>JSON documents\<close>

text \<open>
  \<^verbatim>\<open>JSON.stringify\<close> writes the own properties of an object in order and leaves out
  every property whose value is \<^verbatim>\<open>undefined\<close>; \<^verbatim>\<open>JSON.parse\<close> builds a fresh object
  with exactly the properties of the document. The document is kept as a tree, not as
  text.
\<close>

type_synonym jsonobject = "(string \<times> prim) list"

datatype json = JObject jsonobject | JPrim prim

definition stringify_object :: "jsobject \<Rightarrow> jsonobject" where
  "stringify_object ob =
     List.map_filter (\<lambda>(k, v). case v of None \<Rightarrow> None | Some p \<Rightarrow> Some (k, p)) ob"

definition parse_object :: "jsonobject \<Rightarrow> jsobject" where
  "parse_object jo = map (\<lambda>(k, p). (k, Some p)) jo"

definition stringify_cell :: "cellval \<Rightarrow> json" where
  "stringify_cell c = (case c of Obj ob \<Rightarrow> JObject (stringify_object ob) | Prim p \<Rightarrow> JPrim p)"

definition parse_cell :: "json \<Rightarrow> cellval" where
  "parse_cell j = (case j of JObject jo \<Rightarrow> Obj (parse_object jo) | JPrim p \<Rightarrow> Prim p)"

section \<open>Tools\<close>

text \<open>
  \<^verbatim>\<open>currentTool\<close> is the \<^verbatim>\<open>data-tool\<close> string of a tool button: one of the four tile
  kinds, \<^verbatim>\<open>'erase'\<close> or \<^verbatim>\<open>'select'\<close>. The handlers test for erase, then for select,
  and paint with every other tool.
\<close>

datatype kind = Pitch | Stand | Dugout | Flag

datatype tool = Paint kind | Erase | Select

fun kind_name :: "kind \<Rightarrow> string" where
  "kind_name Pitch = ''pitch''"
| "kind_name Stand = ''stand''"
| "kind_name Dugout = ''dugout''"
| "kind_name Flag = ''flag''"

text \<open>
  \<^verbatim>\<open>parseInt(input.value, 10) || d\<close> and \<^verbatim>\<open>parseFloat(input.value) || d\<close>: the parsed
  number is \<open>None\<close> for \<^verbatim>\<open>NaN\<close>; \<^verbatim>\<open>NaN\<close> and \<^verbatim>\<open>0\<close> are falsy and give the default.
\<close>

definition or_default :: "'a::zero option \<Rightarrow> 'a \<Rightarrow> 'a" where
  "or_default v d = (case v of None \<Rightarrow> d | Some k \<Rightarrow> if k = 0 then d else k)"

text \<open>
  \<^verbatim>\<open>history.push(x); if(history.length > cap) history.shift();\<close>
\<close>

definition push_capped :: "nat \<Rightarrow> 'a list \<Rightarrow> 'a \<Rightarrow> 'a list" where
  "push_capped cap h x = (let h' = h @ [x] in if length h' > cap then tl h' else h')"

datatype error = OutOfRange

section \<open>The flat (2D) editor\<close>

record model2d =
  n2 :: int
  cells :: "cellval list"

record snapshot2d =
  snap_n :: int
  snap_cells :: "json list"

record state2d =
  gridSize :: int
  cellPx :: int
  currentTool :: tool
  model :: model2d
  history :: "snapshot2d list"
  isPointerDown :: bool
  pointerTool :: "tool option"

definition empty_tile :: cellval where
  "empty_tile = Obj [(''type'', Some (Str ''empty''))]"

definition createEmptyModel :: "int \<Rightarrow> model2d" where
  "createEmptyModel k = \<lparr>n2 = k, cells = replicate (nat (k * k)) empty_tile\<rparr>"

definition JSON_stringify2 :: "model2d \<Rightarrow> snapshot2d" where
  "JSON_stringify2 m = \<lparr>snap_n = n2 m, snap_cells = map stringify_cell (cells m)\<rparr>"

definition JSON_parse2 :: "snapshot2d \<Rightarrow> model2d" where
  "JSON_parse2 d = \<lparr>n2 = snap_n d, cells = map parse_cell (snap_cells d)\<rparr>"

definition saveHistory :: "state2d \<Rightarrow> state2d" where
  "saveHistory s = s\<lparr>history := push_capped 100 (history s) (JSON_stringify2 (model s))\<rparr>"

definition set_cell :: "nat \<Rightarrow> cellval \<Rightarrow> state2d \<Rightarrow> state2d" where
  "set_cell idx t s = s\<lparr>model := (model s)\<lparr>cells := (cells (model s))[idx := t]\<rparr>\<rparr>"

text \<open>
  The value the select branch stores:
  \<^verbatim>\<open>c.type==='selected' ? c.prevType || {type:'empty'} : {type:'selected', prevType: c.type}\<close>
\<close>

definition select_toggle :: "cellval \<Rightarrow> cellval" where
  "select_toggle c =
     (if cell_get c ''type'' = Some (Str ''selected'')
      then (case cell_get c ''prevType'' of
              Some p \<Rightarrow> if truthy p then Prim p else empty_tile
            | None \<Rightarrow> empty_tile)
      else Obj [(''type'', Some (Str ''selected'')), (''prevType'', cell_get c ''type'')])"

text \<open>
  \<^verbatim>\<open>handleCellAction\<close>: \<open>idx\<close> is the \<^verbatim>\<open>data-idx\<close> of the cell element. Beyond the end
  of \<^verbatim>\<open>cells\<close> the source reads \<^verbatim>\<open>undefined\<close> (a TypeError in the select branch) or
  grows the array with holes; the model reports that as \<open>OutOfRange\<close>.
\<close>

definition handleCellAction :: "nat \<Rightarrow> state2d \<Rightarrow> error + state2d" where
  "handleCellAction idx s0 =
     (let s = saveHistory s0 in
      if length (cells (model s)) \<le> idx then Inl OutOfRange
      else (case currentTool s of
              Erase \<Rightarrow> Inr (set_cell idx empty_tile s)
            | Select \<Rightarrow> Inr (set_cell idx (select_toggle (cells (model s) ! idx)) s)
            | Paint k \<Rightarrow> Inr (set_cell idx (Obj [(''type'', Some (Str (kind_name k)))]) s)))"

definition onPointerDown :: "nat \<Rightarrow> state2d \<Rightarrow> error + state2d" where
  "onPointerDown idx s =
     handleCellAction idx (s\<lparr>isPointerDown := True, pointerTool := Some (currentTool s)\<rparr>)"

definition onPointerEnter :: "nat \<Rightarrow> state2d \<Rightarrow> error + state2d" where
  "onPointerEnter idx s =
     (if isPointerDown s \<and> pointerTool s = Some (currentTool s)
      then handleCellAction idx s else Inr s)"

definition onPointerUp :: "state2d \<Rightarrow> state2d" where
  "onPointerUp s = s\<lparr>isPointerDown := False, pointerTool := None\<rparr>"

definition selectTool :: "tool \<Rightarrow> state2d \<Rightarrow> state2d" where
  "selectTool t s = s\<lparr>currentTool := t\<rparr>"

definition resizeBtn :: "int option \<Rightarrow> int option \<Rightarrow> state2d \<Rightarrow> state2d" where
  "resizeBtn gv pv s =
     (let k = max 8 (min 64 (or_default gv 24));
          px = max 8 (min 64 (or_default pv 18))
      in s\<lparr>gridSize := k, cellPx := px, model := createEmptyModel k, history := []\<rparr>)"

definition undoBtn :: "state2d \<Rightarrow> state2d" where
  "undoBtn s =
     (if history s = [] then s
      else s\<lparr>model := JSON_parse2 (last (history s)), history := butlast (history s)\<rparr>)"

definition clearBtn :: "state2d \<Rightarrow> state2d" where
  "clearBtn s0 = (let s = saveHistory s0 in s\<lparr>model := createEmptyModel (gridSize s)\<rparr>)"

text \<open>The state after the script has run, from the two input fields' parsed values.\<close>

definition init2D :: "int option \<Rightarrow> int option \<Rightarrow> state2d" where
  "init2D gv pv =
     (let g = or_default gv 24 in
      \<lparr>gridSize = g, cellPx = or_default pv 18, currentTool = Paint Pitch,
       model = createEmptyModel g, history = [], isPointerDown = False, pointerTool = None\<rparr>)"

text \<open>
  The events that change the state. A pointer event names the cell element it hits;
  \<^verbatim>\<open>applyGridStyles\<close> creates elements for the indices below \<^verbatim>\<open>gridSize*gridSize\<close> only,
  so an event for another index does not occur and is skipped. \<open>SelectTool\<close> stands for
  a tool button click and for the keyboard shortcuts, \<open>Undo\<close> for the button and Ctrl+Z.
  The \<^verbatim>\<open>pointerup\<close> listener is installed by every \<^verbatim>\<open>pointerdown\<close>; while it is not
  installed the two fields it resets already hold the reset values.
\<close>

datatype event2d =
    PointerDown nat
  | PointerEnter nat
  | PointerUp
  | SelectTool tool
  | Resize "int option" "int option"
  | Undo
  | Clear

fun step2D :: "event2d \<Rightarrow> state2d \<Rightarrow> error + state2d" where
  "step2D (PointerDown idx) s =
     (if idx < nat (gridSize s * gridSize s) then onPointerDown idx s else Inr s)"
| "step2D (PointerEnter idx) s =
     (if idx < nat (gridSize s * gridSize s) then onPointerEnter idx s else Inr s)"
| "step2D PointerUp s = Inr (onPointerUp s)"
| "step2D (SelectTool t) s = Inr (selectTool t s)"
| "step2D (Resize gv pv) s = Inr (resizeBtn gv pv s)"
| "step2D Undo s = Inr (undoBtn s)"
| "step2D Clear s = Inr (clearBtn s)"

fun run2D :: "event2d list \<Rightarrow> state2d \<Rightarrow> error + state2d" where
  "run2D [] s = Inr s"
| "run2D (e # es) s = (case step2D e s of Inl err \<Rightarrow> Inl err | Inr s' \<Rightarrow> run2D es s')"

section \<open>JavaScript numbers\<close>

text \<open>
  A JavaScript number is an IEEE 754 double: a finite value, an infinity or \<^verbatim>\<open>NaN\<close>. A
  finite double is kept as the rational number it denotes; negative zero is not told
  apart from zero (the editors never divide by zero, the only place where the sign of a
  zero shows). Addition, subtraction, multiplication and division compute the exact
  result and round it to the nearest double, ties to the even significand: \<open>rnd\<close>, with
  53 bits of significand, the least exponent \<open>-1022\<close> (quantum \<open>2 powi -1074\<close> below it)
  and overflow to an infinity from \<open>2 ^ 1024\<close> on.
\<close>

datatype jsnum = Fin rat | PInf | NInf | NaN

text \<open>\<open>ilog2 a\<close> is the exponent \<open>e\<close> with \<open>2 powi e \<le> a < 2 powi (e + 1)\<close>, for \<open>0 < a\<close>.\<close>

definition ilog2 :: "rat \<Rightarrow> int" where
  "ilog2 a =
     (let d = bitlen (fst (quotient_of a)) - bitlen (snd (quotient_of a))
      in if 2 powi d \<le> a then d else d - 1)"

definition round_even :: "rat \<Rightarrow> int" where
  "round_even m =
     (let f = \<lfloor>m\<rfloor>; r = m - of_int f
      in if r < 1 / 2 then f else if 1 / 2 < r then f + 1 else if even f then f else f + 1)"

definition rnd :: "rat \<Rightarrow> jsnum" where
  "rnd x =
     (if x = 0 then Fin 0
      else
        (let a = \<bar>x\<bar>;
             e = max (ilog2 a) (- 1022);
             q = 2 powi (e - 52);
             r = of_int (round_even (a / q)) * q
         in if 2 ^ 1024 \<le> r then (if 0 < x then PInf else NInf)
            else Fin (if 0 < x then r else - r)))"

fun fneg :: "jsnum \<Rightarrow> jsnum" where
  "fneg (Fin a) = Fin (- a)"
| "fneg PInf = NInf"
| "fneg NInf = PInf"
| "fneg NaN = NaN"

fun fadd :: "jsnum \<Rightarrow> jsnum \<Rightarrow> jsnum" where
  "fadd NaN _ = NaN"
| "fadd _ NaN = NaN"
| "fadd PInf NInf = NaN"
| "fadd NInf PInf = NaN"
| "fadd PInf _ = PInf"
| "fadd _ PInf = PInf"
| "fadd NInf _ = NInf"
| "fadd _ NInf = NInf"
| "fadd (Fin a) (Fin b) = rnd (a + b)"

definition fsub :: "jsnum \<Rightarrow> jsnum \<Rightarrow> jsnum" where
  "fsub a b = fadd a (fneg b)"

fun fmul :: "jsnum \<Rightarrow> jsnum \<Rightarrow> jsnum" where
  "fmul NaN _ = NaN"
| "fmul _ NaN = NaN"
| "fmul (Fin a) (Fin b) = rnd (a * b)"
| "fmul (Fin a) PInf = (if a = 0 then NaN else if 0 < a then PInf else NInf)"
| "fmul (Fin a) NInf = (if a = 0 then NaN else if 0 < a then NInf else PInf)"
| "fmul PInf (Fin b) = (if b = 0 then NaN else if 0 < b then PInf else NInf)"
| "fmul NInf (Fin b) = (if b = 0 then NaN else if 0 < b then NInf else PInf)"
| "fmul PInf PInf = PInf"
| "fmul PInf NInf = NInf"
| "fmul NInf PInf = NInf"
| "fmul NInf NInf = PInf"

fun fdiv :: "jsnum \<Rightarrow> jsnum \<Rightarrow> jsnum" where
  "fdiv NaN _ = NaN"
| "fdiv _ NaN = NaN"
| "fdiv (Fin a) (Fin b) =
     (if b = 0 then (if a = 0 then NaN else if 0 < a then PInf else NInf) else rnd (a / b))"
| "fdiv (Fin a) PInf = Fin 0"
| "fdiv (Fin a) NInf = Fin 0"
| "fdiv PInf (Fin b) = (if 0 \<le> b then PInf else NInf)"
| "fdiv NInf (Fin b) = (if 0 \<le> b then NInf else PInf)"
| "fdiv PInf PInf = NaN"
| "fdiv PInf NInf = NaN"
| "fdiv NInf PInf = NaN"
| "fdiv NInf NInf = NaN"

text \<open>
  \<^verbatim>\<open>Math.floor\<close> is exact. \<^verbatim>\<open>Math.max\<close> and \<^verbatim>\<open>Math.min\<close> return \<^verbatim>\<open>NaN\<close> when an
  argument is \<^verbatim>\<open>NaN\<close>.
\<close>

fun Math_floor :: "jsnum \<Rightarrow> jsnum" where
  "Math_floor (Fin a) = Fin (of_int \<lfloor>a\<rfloor>)"
| "Math_floor v = v"

fun js_le :: "jsnum \<Rightarrow> jsnum \<Rightarrow> bool" where
  "js_le (Fin a) (Fin b) = (a \<le> b)"
| "js_le NInf _ = True"
| "js_le _ PInf = True"
| "js_le _ _ = False"

definition Math_max :: "jsnum \<Rightarrow> jsnum \<Rightarrow> jsnum" where
  "Math_max a b = (if a = NaN \<or> b = NaN then NaN else if js_le a b then b else a)"

definition Math_min :: "jsnum \<Rightarrow> jsnum \<Rightarrow> jsnum" where
  "Math_min a b = (if a = NaN \<or> b = NaN then NaN else if js_le a b then a else b)"

text \<open>An integer of the model as a number: the nearest double.\<close>

definition js_int :: "int \<Rightarrow> jsnum" where
  "js_int k = rnd (of_int k)"

section \<open>The 3D editor\<close>

text \<open>
  The 3D model lists the placed items, each an object \<^verbatim>\<open>{type, ix, iz}\<close> whose
  properties hold a string, a number, \<^verbatim>\<open>null\<close> or \<^verbatim>\<open>undefined\<close> (\<open>None\<close>).
  \<^verbatim>\<open>JSON.stringify\<close> leaves out a property holding \<^verbatim>\<open>undefined\<close> and writes \<^verbatim>\<open>null\<close>
  for a number that is not finite. \<^verbatim>\<open>n\<close> is an integer and \<^verbatim>\<open>cell\<close> a finite number
  (both come from the input fields, \<^verbatim>\<open>cell\<close> through \<^verbatim>\<open>parseFloat\<close> of a numeral). The
  scene graph (the meshes of \<^verbatim>\<open>placementGroup\<close>, the camera) is rebuilt from the model
  and is not part of the state.
\<close>

datatype ival = IStr string | INum jsnum | INull

type_synonym itemobj = "(string \<times> ival option) list"

definition item_get :: "itemobj \<Rightarrow> string \<Rightarrow> ival option" where
  "item_get it k = (case map_of it k of Some v \<Rightarrow> v | None \<Rightarrow> None)"

datatype jval = JString string | JNumber rat | JNull

type_synonym jsonitem = "(string \<times> jval) list"

fun stringify_val :: "ival \<Rightarrow> jval" where
  "stringify_val (IStr s) = JString s"
| "stringify_val (INum (Fin r)) = JNumber r"
| "stringify_val (INum _) = JNull"
| "stringify_val INull = JNull"

fun parse_val :: "jval \<Rightarrow> ival" where
  "parse_val (JString s) = IStr s"
| "parse_val (JNumber r) = INum (Fin r)"
| "parse_val JNull = INull"

definition stringify_item :: "itemobj \<Rightarrow> jsonitem" where
  "stringify_item it =
     List.map_filter (\<lambda>(k, v). case v of None \<Rightarrow> None | Some u \<Rightarrow> Some (k, stringify_val u)) it"

definition parse_item :: "jsonitem \<Rightarrow> itemobj" where
  "parse_item jo = map (\<lambda>(k, j). (k, Some (parse_val j))) jo"

record model3d =
  n3 :: int
  cell :: rat
  items :: "itemobj list"

record snapshot3d =
  snap3_n :: int
  snap3_cell :: rat
  snap3_items :: "jsonitem list"

record state3d =
  gridSize3 :: int
  cellSize :: rat
  currentTool3 :: tool
  model3 :: model3d
  history3 :: "snapshot3d list"
  isPointerDown3 :: bool

definition JSON_stringify3 :: "model3d \<Rightarrow> snapshot3d" where
  "JSON_stringify3 m =
     \<lparr>snap3_n = n3 m, snap3_cell = cell m, snap3_items = map stringify_item (items m)\<rparr>"

definition JSON_parse3 :: "snapshot3d \<Rightarrow> model3d" where
  "JSON_parse3 d =
     \<lparr>n3 = snap3_n d, cell = snap3_cell d, items = map parse_item (snap3_items d)\<rparr>"

definition saveHistory3 :: "state3d \<Rightarrow> state3d" where
  "saveHistory3 s = s\<lparr>history3 := push_capped 200 (history3 s) (JSON_stringify3 (model3 s))\<rparr>"

text \<open>
  \<^verbatim>\<open>getGridCoordsFromIntersection\<close>, in double arithmetic; \<open>rnd (1 / 100000)\<close> is the
  literal \<^verbatim>\<open>0.00001\<close>. The point is what the caller computed and may be any number.
\<close>

definition getGridCoordsFromIntersection :: "model3d \<Rightarrow> jsnum \<times> jsnum \<Rightarrow> jsnum \<times> jsnum" where
  "getGridCoordsFromIntersection m point =
     (let x = Math_floor (fadd (fdiv (fst point) (Fin (cell m))) (rnd (1 / 100000)));
          z = Math_floor (fadd (fdiv (snd point) (Fin (cell m))) (rnd (1 / 100000)));
          ix = Math_max (Fin 0) (Math_min (fsub (js_int (n3 m)) (Fin 1)) x);
          iz = Math_max (Fin 0) (Math_min (fsub (js_int (n3 m)) (Fin 1)) z)
      in (ix, iz))"

text \<open>
  \<^verbatim>\<open>it.ix === ix\<close>: strict equality with a number holds for an equal number that is
  not \<^verbatim>\<open>NaN\<close>. The filter of \<^verbatim>\<open>addItem\<close> and \<^verbatim>\<open>removeItemAt\<close> keeps
  \<^verbatim>\<open>it => !(it.ix === ix && it.iz === iz)\<close>.
\<close>

definition strict_eq_num :: "ival option \<Rightarrow> jsnum \<Rightarrow> bool" where
  "strict_eq_num v x = (case v of Some (INum y) \<Rightarrow> y \<noteq> NaN \<and> y = x | _ \<Rightarrow> False)"

definition not_at :: "jsnum \<Rightarrow> jsnum \<Rightarrow> itemobj \<Rightarrow> bool" where
  "not_at ix iz it =
     (\<not> (strict_eq_num (item_get it ''ix'') ix \<and> strict_eq_num (item_get it ''iz'') iz))"

definition set_items :: "itemobj list \<Rightarrow> state3d \<Rightarrow> state3d" where
  "set_items its s = s\<lparr>model3 := (model3 s)\<lparr>items := its\<rparr>\<rparr>"

text \<open>\<^verbatim>\<open>addItem\<close> is called with a tile kind only, so a mesh is always created.\<close>

definition addItem :: "kind \<Rightarrow> jsnum \<Rightarrow> jsnum \<Rightarrow> state3d \<Rightarrow> state3d" where
  "addItem k ix iz s0 =
     (let s = saveHistory3 s0;
          s1 = set_items (filter (not_at ix iz) (items (model3 s))) s
      in set_items (items (model3 s1) @
           [[(''type'', Some (IStr (kind_name k))), (''ix'', Some (INum ix)), (''iz'', Some (INum iz))]]) s1)"

definition removeItemAt :: "jsnum \<Rightarrow> jsnum \<Rightarrow> state3d \<Rightarrow> state3d" where
  "removeItemAt ix iz s0 =
     (let s = saveHistory3 s0 in set_items (filter (not_at ix iz) (items (model3 s))) s)"

text \<open>
  The coordinate that \<^verbatim>\<open>handlePointerEvent\<close> passes on:
  \<^verbatim>\<open>p.x + (model.n*model.cell)/2 - model.cell/2\<close>.
\<close>

definition to_grid_space :: "model3d \<Rightarrow> rat \<Rightarrow> jsnum" where
  "to_grid_space m p =
     fsub (fadd (Fin p) (fdiv (fmul (js_int (n3 m)) (Fin (cell m))) (Fin 2)))
          (fdiv (Fin (cell m)) (Fin 2))"

text \<open>
  \<^verbatim>\<open>handlePointerEvent\<close>: \<open>hit\<close> is the first intersection of the pointer ray with the
  placement plane (its \<open>x\<close> and \<open>z\<close>, finite numbers), \<open>None\<close> when the ray misses the
  plane. The select tool only scales a mesh for a moment.
\<close>

definition handlePointerEvent :: "(rat \<times> rat) option \<Rightarrow> state3d \<Rightarrow> state3d" where
  "handlePointerEvent hit s =
     (case hit of
        None \<Rightarrow> s
      | Some p \<Rightarrow>
          (let m = model3 s;
               c = getGridCoordsFromIntersection m (to_grid_space m (fst p), to_grid_space m (snd p))
           in (case currentTool3 s of
                 Erase \<Rightarrow> removeItemAt (fst c) (snd c) s
               | Select \<Rightarrow> s
               | Paint k \<Rightarrow> addItem k (fst c) (snd c) s)))"

definition pointerdown3 :: "(rat \<times> rat) option \<Rightarrow> state3d \<Rightarrow> state3d" where
  "pointerdown3 hit s = handlePointerEvent hit (s\<lparr>isPointerDown3 := True\<rparr>)"

definition pointerup3 :: "state3d \<Rightarrow> state3d" where
  "pointerup3 s = s\<lparr>isPointerDown3 := False\<rparr>"

definition pointermove3 :: "(rat \<times> rat) option \<Rightarrow> state3d \<Rightarrow> state3d" where
  "pointermove3 hit s =
     (if isPointerDown3 s \<and> currentTool3 s \<noteq> Select then handlePointerEvent hit s else s)"

definition toolClick3 :: "tool \<Rightarrow> state3d \<Rightarrow> state3d" where
  "toolClick3 t s = s\<lparr>currentTool3 := t\<rparr>"

definition resizeBtn3 :: "int option \<Rightarrow> rat option \<Rightarrow> state3d \<Rightarrow> state3d" where
  "resizeBtn3 gv cv s =
     (let k = max 8 (min 128 (or_default gv 24));
          c = max (1 / 2) (min 8 (or_default cv 2))
      in s\<lparr>gridSize3 := k, cellSize := c,
            model3 := \<lparr>n3 = k, cell = c, items = []\<rparr>, history3 := []\<rparr>)"

definition undoBtn3 :: "state3d \<Rightarrow> state3d" where
  "undoBtn3 s =
     (if history3 s = [] then s
      else s\<lparr>model3 := JSON_parse3 (last (history3 s)), history3 := butlast (history3 s)\<rparr>)"

definition clearBtn3 :: "state3d \<Rightarrow> state3d" where
  "clearBtn3 s0 = (let s = saveHistory3 s0 in set_items [] s)"

definition init3D :: "int option \<Rightarrow> rat option \<Rightarrow> state3d" where
  "init3D gv cv =
     (let g = or_default gv 24; c = or_default cv 2 in
      \<lparr>gridSize3 = g, cellSize = c, currentTool3 = Paint Pitch,
       model3 = \<lparr>n3 = g, cell = c, items = []\<rparr>, history3 = [], isPointerDown3 = False\<rparr>)"

datatype event3d =
    PointerDown3 "(rat \<times> rat) option"
  | PointerMove3 "(rat \<times> rat) option"
  | PointerUp3
  | ToolClick3 tool
  | Resize3 "int option" "rat option"
  | Undo3
  | Clear3

fun step3D :: "event3d \<Rightarrow> state3d \<Rightarrow> state3d" where
  "step3D (PointerDown3 hit) s = pointerdown3 hit s"
| "step3D (PointerMove3 hit) s = pointermove3 hit s"
| "step3D PointerUp3 s = pointerup3 s"
| "step3D (ToolClick3 t) s = toolClick3 t s"
| "step3D (Resize3 gv cv) s = resizeBtn3 gv cv s"
| "step3D Undo3 s = undoBtn3 s"
| "step3D Clear3 s = clearBtn3 s"

fun run3D :: "event3d list \<Rightarrow> state3d \<Rightarrow> state3d" where
  "run3D [] s = s"
| "run3D (e # es) s = run3D es (step3D e s)"

section \<open>Invariants and comparisons\<close>

text \<open>
  An object has each property name once. \<open>snap_ok g\<close> is a snapshot of a grid of
  dimension \<open>g\<close>; \<open>grid_inv\<close> says that the model and every snapshot of the history
  have the dimension of the page, with one entry for each index.
\<close>

definition wf_cell :: "cellval \<Rightarrow> bool" where
  "wf_cell c = (case c of Obj ob \<Rightarrow> distinct (map fst ob) | Prim _ \<Rightarrow> True)"

definition wf_json :: "json \<Rightarrow> bool" where
  "wf_json j = (case j of JObject jo \<Rightarrow> distinct (map fst jo) | JPrim _ \<Rightarrow> True)"

definition snap_ok :: "int \<Rightarrow> snapshot2d \<Rightarrow> bool" where
  "snap_ok g d = (snap_n d = g \<and> length (snap_cells d) = nat (g * g))"

definition grid_inv :: "state2d \<Rightarrow> bool" where
  "grid_inv s =
     (n2 (model s) = gridSize s \<and>
      length (cells (model s)) = nat (gridSize s * gridSize s) \<and>
      list_all (snap_ok (gridSize s)) (history s))"

definition keys_inv :: "state2d \<Rightarrow> bool" where
  "keys_inv s =
     (list_all wf_cell (cells (model s)) \<and>
      list_all (\<lambda>d. list_all wf_json (snap_cells d)) (history s))"

text \<open>
  Two cells are the same when both are the same bare value, or both are objects whose
  \<^verbatim>\<open>type\<close> and \<^verbatim>\<open>prevType\<close> read the same. An object is plain when none of its
  properties holds \<^verbatim>\<open>undefined\<close>.
\<close>

definition same_cell :: "cellval \<Rightarrow> cellval \<Rightarrow> bool" where
  "same_cell c d =
     (case (c, d) of
        (Prim p, Prim q) \<Rightarrow> p = q
      | (Obj a, Obj b) \<Rightarrow>
          getp a ''type'' = getp b ''type'' \<and> getp a ''prevType'' = getp b ''prevType''
      | _ \<Rightarrow> False)"

definition same_model :: "model2d \<Rightarrow> model2d \<Rightarrow> bool" where
  "same_model m m' = (n2 m = n2 m' \<and> list_all2 same_cell (cells m) (cells m'))"

definition plain :: "jsobject \<Rightarrow> bool" where
  "plain ob = list_all (\<lambda>kv. snd kv \<noteq> None) ob"

definition plain_cell :: "cellval \<Rightarrow> bool" where
  "plain_cell c = (case c of Obj ob \<Rightarrow> plain ob | Prim _ \<Rightarrow> True)"

text \<open>
  In the 3D editor a property value survives the copy through JSON unchanged unless it
  is \<^verbatim>\<open>undefined\<close> or a number that is not finite. The dimensions are in range when
  \<open>n\<close> is an integer that doubles represent and the cell size is neither zero nor huge;
  \<open>load_ok\<close> says so of the values parsed from the page when the script starts.
\<close>

definition val_ok :: "ival option \<Rightarrow> bool" where
  "val_ok v =
     (case v of
        None \<Rightarrow> False
      | Some (INum x) \<Rightarrow> (case x of Fin _ \<Rightarrow> True | _ \<Rightarrow> False)
      | Some _ \<Rightarrow> True)"

definition item_ok :: "itemobj \<Rightarrow> bool" where
  "item_ok it = list_all (\<lambda>kv. val_ok (snd kv)) it"

definition dims_ok :: "int \<Rightarrow> rat \<Rightarrow> bool" where
  "dims_ok k c = (\<bar>k\<bar> \<le> 2 ^ 53 \<and> c \<noteq> 0 \<and> \<bar>c\<bar> \<le> 2 ^ 1022)"

definition load_ok :: "int option \<Rightarrow> rat option \<Rightarrow> bool" where
  "load_ok gv cv = dims_ok (or_default gv 24) (or_default cv 2)"

definition sane3 :: "state3d \<Rightarrow> bool" where
  "sane3 s =
     (dims_ok (n3 (model3 s)) (cell (model3 s)) \<and>
      list_all item_ok (items (model3 s)) \<and>
      list_all (\<lambda>d. dims_ok (snap3_n d) (snap3_cell d)) (history3 s))"

section \<open>The bounded history\<close>

lemma push_capped_drop:
  "push_capped cap (drop (length xs - cap) xs) x = drop (length (xs @ [x]) - cap) (xs @ [x])"
proof (cases "length xs < cap")
  case True
  then show ?thesis by (simp add: push_capped_def)
next
  case False
  show ?thesis
  proof (cases "cap = 0")
    case True
    then show ?thesis by (simp add: push_capped_def)
  next
    case c: False
    with False have lt: "length xs - cap < length xs" by auto
    have e: "Suc (length xs) - cap = Suc (length xs - cap)" using False by auto
    have ne: "drop (length xs - cap) xs \<noteq> []" using lt by simp
    have l: "length (drop (length xs - cap) xs) = cap" using False by simp
    have "tl (drop (length xs - cap) xs @ [x]) = tl (drop (length xs - cap) xs) @ [x]"
      using ne by simp
    also have "tl (drop (length xs - cap) xs) = drop (Suc (length xs - cap)) xs"
      by (simp add: drop_Suc tl_drop)
    finally have t: "tl (drop (length xs - cap) xs @ [x]) = drop (Suc (length xs - cap)) xs @ [x]" .
    have "push_capped cap (drop (length xs - cap) xs) x = tl (drop (length xs - cap) xs @ [x])"
      unfolding push_capped_def Let_def using l by simp
    also have "\<dots> = drop (Suc (length xs - cap)) xs @ [x]" by (rule t)
    also have "\<dots> = drop (length (xs @ [x]) - cap) (xs @ [x])"
      using e lt by simp
    finally show ?thesis .
  qed
qed

lemma last_push_capped: "0 < cap \<Longrightarrow> last (push_capped cap h x) = x"
  by (cases h) (auto simp: push_capped_def Let_def last_tl)

lemma set_push_capped: "set (push_capped cap h x) \<subseteq> insert x (set h)"
  by (cases h) (auto simp: push_capped_def Let_def)

lemma list_all_push_capped: "list_all P h \<Longrightarrow> P x \<Longrightarrow> list_all P (push_capped cap h x)"
  using set_push_capped[of cap h x] by (auto simp: list_all_iff)

lemma list_all_butlast: "list_all P h \<Longrightarrow> list_all P (butlast h)"
  by (auto simp: list_all_iff dest: in_set_butlastD)

lemma list_all_last: "list_all P h \<Longrightarrow> h \<noteq> [] \<Longrightarrow> P (last h)"
  by (auto simp: list_all_iff)

section \<open>The grid invariant of the 2D editor\<close>

lemma saveHistory_simps:
  "model (saveHistory s) = model s"
  "gridSize (saveHistory s) = gridSize s"
  "cellPx (saveHistory s) = cellPx s"
  "currentTool (saveHistory s) = currentTool s"
  "isPointerDown (saveHistory s) = isPointerDown s"
  "pointerTool (saveHistory s) = pointerTool s"
  "history (saveHistory s) = push_capped 100 (history s) (JSON_stringify2 (model s))"
  by (simp_all add: saveHistory_def)

lemma set_cell_simps:
  "n2 (model (set_cell idx t s)) = n2 (model s)"
  "cells (model (set_cell idx t s)) = (cells (model s))[idx := t]"
  "gridSize (set_cell idx t s) = gridSize s"
  "cellPx (set_cell idx t s) = cellPx s"
  "currentTool (set_cell idx t s) = currentTool s"
  "isPointerDown (set_cell idx t s) = isPointerDown s"
  "pointerTool (set_cell idx t s) = pointerTool s"
  "history (set_cell idx t s) = history s"
  by (simp_all add: set_cell_def)

lemma snap_ok_stringify:
  "n2 m = g \<Longrightarrow> length (cells m) = nat (g * g) \<Longrightarrow> snap_ok g (JSON_stringify2 m)"
  by (simp add: snap_ok_def JSON_stringify2_def)

lemma grid_inv_saveHistory: "grid_inv s \<Longrightarrow> grid_inv (saveHistory s)"
  by (simp add: grid_inv_def saveHistory_simps list_all_push_capped snap_ok_stringify)

lemma grid_inv_set_cell: "grid_inv s \<Longrightarrow> grid_inv (set_cell idx t s)"
  by (simp add: grid_inv_def set_cell_simps)

lemma handleCellAction_total:
  assumes "grid_inv s" "idx < nat (gridSize s * gridSize s)"
  shows "\<exists>s'. handleCellAction idx s = Inr s' \<and> grid_inv s'"
proof -
  have g: "grid_inv (saveHistory s)" using assms(1) by (rule grid_inv_saveHistory)
  have "idx < length (cells (model (saveHistory s)))"
    using assms by (simp add: grid_inv_def saveHistory_simps)
  then show ?thesis
    using g by (cases "currentTool s")
      (simp_all add: handleCellAction_def Let_def saveHistory_simps grid_inv_set_cell)
qed

lemma grid_inv_flags:
  "grid_inv (s\<lparr>isPointerDown := b, pointerTool := p\<rparr>) = grid_inv s"
  "grid_inv (s\<lparr>currentTool := t\<rparr>) = grid_inv s"
  by (simp_all add: grid_inv_def)

lemma grid_inv_create: "length (cells (createEmptyModel k)) = nat (k * k)" "n2 (createEmptyModel k) = k"
  by (simp_all add: createEmptyModel_def)

lemma grid_inv_step:
  assumes "grid_inv s"
  shows "\<exists>s'. step2D e s = Inr s' \<and> grid_inv s'"
proof (cases e)
  case (PointerDown idx)
  show ?thesis
  proof (cases "idx < nat (gridSize s * gridSize s)")
    case True
    then show ?thesis
      using handleCellAction_total[of "s\<lparr>isPointerDown := True, pointerTool := Some (currentTool s)\<rparr>" idx] assms
      by (simp add: PointerDown onPointerDown_def grid_inv_flags)
  next
    case False
    then show ?thesis using assms by (simp add: PointerDown)
  qed
next
  case (PointerEnter idx)
  then show ?thesis
    using handleCellAction_total[of s idx] assms
    by (simp add: onPointerEnter_def)
next
  case PointerUp
  then show ?thesis using assms by (simp add: onPointerUp_def grid_inv_flags)
next
  case (SelectTool t)
  then show ?thesis using assms by (simp add: selectTool_def grid_inv_flags)
next
  case (Resize gv pv)
  then show ?thesis by (simp add: resizeBtn_def Let_def grid_inv_def grid_inv_create)
next
  case Undo
  show ?thesis
  proof (cases "history s = []")
    case True
    then show ?thesis using assms by (simp add: Undo undoBtn_def)
  next
    case False
    have "list_all (snap_ok (gridSize s)) (history s)" using assms by (simp add: grid_inv_def)
    then have "snap_ok (gridSize s) (last (history s))"
      and "list_all (snap_ok (gridSize s)) (butlast (history s))"
      using False by (auto intro: list_all_last list_all_butlast)
    then show ?thesis using False
      by (simp add: Undo undoBtn_def grid_inv_def JSON_parse2_def snap_ok_def)
  qed
next
  case Clear
  have "grid_inv (saveHistory s)" using assms by (rule grid_inv_saveHistory)
  then show ?thesis
    by (simp add: Clear clearBtn_def Let_def grid_inv_def grid_inv_create saveHistory_simps)
qed

lemma grid_inv_init: "grid_inv (init2D gv pv)"
  by (simp add: init2D_def Let_def grid_inv_def grid_inv_create)

lemma grid_inv_run:
  "grid_inv s \<Longrightarrow> \<exists>s'. run2D es s = Inr s' \<and> grid_inv s'"
proof (induction es arbitrary: s)
  case Nil
  then show ?case by simp
next
  case (Cons e es)
  from grid_inv_step[OF Cons.prems, of e] obtain s1 where
    s1: "step2D e s = Inr s1" "grid_inv s1" by blast
  from Cons.IH[OF s1(2)] show ?case using s1(1) by simp
qed

section \<open>Copies through JSON\<close>

lemma parse_stringify_object:
  "parse_object (stringify_object ob) = filter (\<lambda>kv. snd kv \<noteq> None) ob"
  by (induction ob) (auto simp: parse_object_def stringify_object_def List.map_filter_simps split: option.splits)

lemma getp_filter_defined:
  "distinct (map fst ob) \<Longrightarrow> getp (filter (\<lambda>kv. snd kv \<noteq> None) ob) k = getp ob k"
proof (induction ob)
  case Nil
  then show ?case by simp
next
  case (Cons a ob)
  obtain k' v where a: "a = (k', v)" by (cases a)
  show ?case
  proof (cases "k' = k")
    case True
    then have "map_of ob k = None" using Cons.prems a by (auto simp: map_of_eq_None_iff)
    then have "map_of (filter (\<lambda>kv. snd kv \<noteq> None) ob) k = None"
      by (auto simp: map_of_eq_None_iff)
    then show ?thesis using True a by (simp add: getp_def)
  next
    case False
    then show ?thesis using Cons a by (simp add: getp_def)
  qed
qed

lemma getp_roundtrip:
  "distinct (map fst ob) \<Longrightarrow> getp (parse_object (stringify_object ob)) k = getp ob k"
  by (simp only: parse_stringify_object getp_filter_defined)

lemma same_cell_roundtrip: "wf_cell c \<Longrightarrow> same_cell (parse_cell (stringify_cell c)) c"
  by (cases c) (simp_all add: wf_cell_def same_cell_def parse_cell_def stringify_cell_def getp_roundtrip)

lemma plain_roundtrip: "plain ob \<Longrightarrow> parse_object (stringify_object ob) = ob"
  by (simp add: parse_stringify_object plain_def list_all_iff)

lemma plain_parse: "plain (parse_object jo)"
  by (induction jo) (auto simp: plain_def parse_object_def)

lemma fst_stringify: "map fst (stringify_object ob) = map fst (filter (\<lambda>kv. snd kv \<noteq> None) ob)"
  by (induction ob) (auto simp: stringify_object_def List.map_filter_simps split: option.splits)

lemma wf_json_stringify: "wf_cell c \<Longrightarrow> wf_json (stringify_cell c)"
  by (cases c) (simp_all add: wf_cell_def wf_json_def stringify_cell_def fst_stringify distinct_map_filter)

lemma wf_cell_parse: "wf_json j \<Longrightarrow> wf_cell (parse_cell j)"
  by (cases j) (simp_all add: wf_cell_def wf_json_def parse_cell_def parse_object_def comp_def case_prod_unfold)

lemma wf_cell_empty: "wf_cell empty_tile"
  by (simp add: wf_cell_def empty_tile_def)

lemma wf_cell_select: "wf_cell (select_toggle c)"
  by (simp add: wf_cell_def select_toggle_def empty_tile_def split: option.splits)

lemma list_all_update: "list_all P xs \<Longrightarrow> P x \<Longrightarrow> list_all P (xs[i := x])"
  by (auto simp: list_all_iff dest: set_update_subset_insert[THEN subsetD])

lemma keys_inv_saveHistory:
  assumes "keys_inv s"
  shows "keys_inv (saveHistory s)"
proof -
  have "list_all wf_json (snap_cells (JSON_stringify2 (model s)))"
    using assms by (simp add: keys_inv_def JSON_stringify2_def list_all_iff wf_json_stringify)
  then have "list_all (\<lambda>d. list_all wf_json (snap_cells d))
               (push_capped 100 (history s) (JSON_stringify2 (model s)))"
    using assms by (intro list_all_push_capped) (simp_all add: keys_inv_def)
  then show ?thesis using assms by (simp add: keys_inv_def saveHistory_simps)
qed

lemma keys_inv_set_cell: "keys_inv s \<Longrightarrow> wf_cell t \<Longrightarrow> keys_inv (set_cell idx t s)"
  by (simp add: keys_inv_def set_cell_simps list_all_update)

lemma keys_inv_handle:
  assumes "keys_inv s" "handleCellAction idx s = Inr s'"
  shows "keys_inv s'"
proof -
  have g: "keys_inv (saveHistory s)" using assms(1) by (rule keys_inv_saveHistory)
  show ?thesis
    using assms(2) g by (cases "currentTool s")
      (auto simp: handleCellAction_def Let_def saveHistory_simps wf_cell_def
           intro!: keys_inv_set_cell wf_cell_empty wf_cell_select split: if_splits)
qed

lemma keys_inv_flags:
  "keys_inv (s\<lparr>isPointerDown := b, pointerTool := p\<rparr>) = keys_inv s"
  "keys_inv (s\<lparr>currentTool := t\<rparr>) = keys_inv s"
  by (simp_all add: keys_inv_def)

lemma wf_create: "list_all wf_cell (cells (createEmptyModel k))"
  by (simp add: createEmptyModel_def list_all_iff wf_cell_empty)

lemma keys_inv_step:
  assumes "keys_inv s" "step2D e s = Inr s'"
  shows "keys_inv s'"
proof (cases e)
  case (PointerDown idx)
  then show ?thesis
    using assms keys_inv_handle[of "s\<lparr>isPointerDown := True, pointerTool := Some (currentTool s)\<rparr>" idx s']
    by (auto simp: onPointerDown_def keys_inv_flags split: if_splits)
next
  case (PointerEnter idx)
  then show ?thesis
    using assms keys_inv_handle[of s idx s']
    by (auto simp: onPointerEnter_def split: if_splits)
next
  case PointerUp
  then show ?thesis using assms by (auto simp: onPointerUp_def keys_inv_flags)
next
  case (SelectTool t)
  then show ?thesis using assms by (auto simp: selectTool_def keys_inv_flags)
next
  case (Resize gv pv)
  then show ?thesis using assms by (auto simp: resizeBtn_def Let_def keys_inv_def wf_create)
next
  case Undo
  show ?thesis
  proof (cases "history s = []")
    case True
    then show ?thesis using assms Undo by (simp add: undoBtn_def)
  next
    case False
    have h: "list_all (\<lambda>d. list_all wf_json (snap_cells d)) (history s)"
      using assms(1) by (simp add: keys_inv_def)
    have "list_all wf_json (snap_cells (last (history s)))"
      using list_all_last[OF h False] .
    then have "list_all wf_cell (cells (JSON_parse2 (last (history s))))"
      by (simp add: JSON_parse2_def list_all_iff wf_cell_parse)
    then show ?thesis using False assms(2) Undo list_all_butlast[OF h]
      by (auto simp: undoBtn_def keys_inv_def)
  qed
next
  case Clear
  have "keys_inv (saveHistory s)" using assms(1) by (rule keys_inv_saveHistory)
  then show ?thesis using assms(2) Clear
    by (auto simp: clearBtn_def Let_def keys_inv_def wf_create saveHistory_simps)
qed

lemma keys_inv_init: "keys_inv (init2D gv pv)"
  by (simp add: init2D_def Let_def keys_inv_def wf_create)

lemma keys_inv_run: "keys_inv s \<Longrightarrow> run2D es s = Inr s' \<Longrightarrow> keys_inv s'"
proof (induction es arbitrary: s)
  case Nil
  then show ?case by simp
next
  case (Cons e es)
  then show ?case by (auto split: sum.splits dest: keys_inv_step)
qed

lemma same_model_roundtrip:
  "list_all wf_cell (cells m) \<Longrightarrow> same_model (JSON_parse2 (JSON_stringify2 m)) m"
  by (simp add: same_model_def JSON_parse2_def JSON_stringify2_def list_all2_map1 list_all_iff
      list_all2_same same_cell_roundtrip)

section \<open>Rounding to doubles\<close>

lemma ilog2_lower:
  assumes "0 < a"
  shows "2 powi (ilog2 a) \<le> a"
proof -
  obtain p q where pq: "quotient_of a = (p, q)" by (cases "quotient_of a")
  have q: "0 < q" using pq by (rule quotient_of_denom_pos)
  have a: "a = of_int p / of_int q" using pq by (rule quotient_of_div)
  have p: "0 < p" using assms q a by (simp add: zero_less_divide_iff)
  define d where "d = bitlen p - bitlen q"
  have bp: "2 ^ nat (bitlen p - 1) \<le> p" using bitlen_bounds[OF p] by simp
  have bq: "q < 2 ^ nat (bitlen q)" using bitlen_bounds[OF q] by simp
  have bp1: "1 \<le> bitlen p" using p by (simp add: bitlen_alt_def)
  have bq0: "0 \<le> bitlen q" by (rule bitlen_nonneg)
  have lp: "(2::rat) powi (bitlen p - 1) \<le> of_int p"
  proof -
    have "(2::rat) powi (bitlen p - 1) = 2 ^ nat (bitlen p - 1)"
      using bp1 by (simp add: power_int_nonneg_exp)
    also have "\<dots> = of_int (2 ^ nat (bitlen p - 1))" by simp
    also have "\<dots> \<le> of_int p" using bp by (simp only: of_int_le_iff)
    finally show ?thesis .
  qed
  have lq: "of_int q < (2::rat) powi (bitlen q)"
  proof -
    have "of_int q < (of_int (2 ^ nat (bitlen q)) :: rat)" using bq by (simp only: of_int_less_iff)
    also have "\<dots> = 2 ^ nat (bitlen q)" by simp
    also have "\<dots> = 2 powi (bitlen q)" using bq0 by (simp add: power_int_nonneg_exp)
    finally show ?thesis .
  qed
  have "(2::rat) powi (d - 1) = 2 powi (bitlen p - 1) / 2 powi (bitlen q)"
    unfolding d_def by (simp add: power_int_diff)
  also have "\<dots> \<le> of_int p / 2 powi (bitlen q)"
    using lp by (simp add: divide_right_mono)
  also have "\<dots> \<le> of_int p / of_int q"
    using lq p q by (intro divide_left_mono) (simp_all)
  finally have low: "(2::rat) powi (d - 1) \<le> a" using a by simp
  show ?thesis
    using low unfolding ilog2_def pq d_def[symmetric] Let_def by (simp add: d_def)
qed


lemma ilog2_upper:
  assumes "0 < a"
  shows "a < 2 powi (ilog2 a + 1)"
proof -
  obtain p q where pq: "quotient_of a = (p, q)" by (cases "quotient_of a")
  have q: "0 < q" using pq by (rule quotient_of_denom_pos)
  have a: "a = of_int p / of_int q" using pq by (rule quotient_of_div)
  have p: "0 < p" using assms q a by (simp add: zero_less_divide_iff)
  define d where "d = bitlen p - bitlen q"
  have bp: "p < 2 ^ nat (bitlen p)" using bitlen_bounds[OF p] by simp
  have bq: "2 ^ nat (bitlen q - 1) \<le> q" using bitlen_bounds[OF q] by simp
  have bq1: "1 \<le> bitlen q" using q by (simp add: bitlen_alt_def)
  have bp0: "0 \<le> bitlen p" by (rule bitlen_nonneg)
  have lp: "of_int p < (2::rat) powi (bitlen p)"
  proof -
    have "of_int p < (of_int (2 ^ nat (bitlen p)) :: rat)" using bp by (simp only: of_int_less_iff)
    also have "\<dots> = 2 ^ nat (bitlen p)" by simp
    also have "\<dots> = 2 powi (bitlen p)" using bp0 by (simp add: power_int_nonneg_exp)
    finally show ?thesis .
  qed
  have lq: "(2::rat) powi (bitlen q - 1) \<le> of_int q"
  proof -
    have "(2::rat) powi (bitlen q - 1) = 2 ^ nat (bitlen q - 1)"
      using bq1 by (simp add: power_int_nonneg_exp)
    also have "\<dots> = of_int (2 ^ nat (bitlen q - 1))" by simp
    also have "\<dots> \<le> of_int q" using bq by (simp only: of_int_le_iff)
    finally show ?thesis .
  qed
  have pos: "(0::rat) < 2 powi (bitlen q - 1)" by simp
  have qpos: "(0::rat) < of_int q" using q by simp
  have "a = of_int p / of_int q" by (rule a)
  also have "\<dots> \<le> of_int p / 2 powi (bitlen q - 1)"
  proof (rule divide_left_mono)
    show "2 powi (bitlen q - 1) \<le> rat_of_int q" by (rule lq)
    show "0 \<le> rat_of_int p" using p by simp
    show "0 < rat_of_int q * 2 powi (bitlen q - 1)" using qpos pos by (rule mult_pos_pos)
  qed
  also have "\<dots> < 2 powi (bitlen p) / 2 powi (bitlen q - 1)"
    using lp pos by (simp add: divide_strict_right_mono)
  also have "\<dots> = 2 powi (bitlen p - (bitlen q - 1))"
    by (subst power_int_diff) simp_all
  also have "bitlen p - (bitlen q - 1) = d + 1" by (simp add: d_def)
  finally have up: "a < 2 powi (d + 1)" .
  show ?thesis
  proof (cases "(2::rat) powi d \<le> a")
    case True
    then show ?thesis using up unfolding ilog2_def pq Let_def by (simp add: d_def)
  next
    case False
    then show ?thesis unfolding ilog2_def pq Let_def by (simp add: d_def)
  qed
qed

lemma pow2_less_imp: "(2::rat) powi m < 2 powi n \<Longrightarrow> m < n"
proof (rule ccontr)
  assume lt: "(2::rat) powi m < 2 powi n" and "\<not> m < n"
  then have "n \<le> m" by simp
  then have "(2::rat) powi n \<le> 2 powi m" by (rule power_int_increasing) simp
  with lt show False by simp
qed

lemma ilog2_unique:
  assumes "(2::rat) powi e \<le> a" and "a < 2 powi (e + 1)"
  shows "ilog2 a = e"
proof -
  have pos: "0 < a" using assms(1) by (rule less_le_trans[rotated]) simp
  have "(2::rat) powi e < 2 powi (ilog2 a + 1)"
    using assms(1) ilog2_upper[OF pos] by simp
  then have 1: "e < ilog2 a + 1" by (rule pow2_less_imp)
  have "(2::rat) powi (ilog2 a) < 2 powi (e + 1)"
    using assms(2) ilog2_lower[OF pos] by simp
  then have 2: "ilog2 a < e + 1" by (rule pow2_less_imp)
  from 1 2 show ?thesis by simp
qed

lemma round_even_of_int: "round_even (of_int j) = j"
  by (simp add: round_even_def)

lemma round_even_nonneg: "0 \<le> m \<Longrightarrow> 0 \<le> round_even m"
  by (auto simp: round_even_def Let_def)

lemma round_even_upper: "of_int (round_even m) \<le> m + 1"
proof -
  have "round_even m \<le> \<lfloor>m\<rfloor> + 1" by (simp add: round_even_def Let_def)
  then have "(of_int (round_even m) :: rat) \<le> of_int (\<lfloor>m\<rfloor> + 1)" by (simp only: of_int_le_iff)
  also have "\<dots> \<le> m + 1" by simp
  finally show ?thesis .
qed


lemma pow2_le_imp: "(2::rat) powi m \<le> 2 powi n \<Longrightarrow> m \<le> n"
proof (rule ccontr)
  assume le: "(2::rat) powi m \<le> 2 powi n" and "\<not> m \<le> n"
  then have "n < m" by simp
  then have "(2::rat) powi n < 2 powi m" by (rule power_int_strict_increasing) simp
  with le show False by simp
qed

lemma round_even_eq:
  assumes "of_int k - 1 / 2 < m" and "m < of_int k + 1 / 2"
  shows "round_even m = k"
proof -
  define f where "f = \<lfloor>m\<rfloor>"
  have f1: "of_int f \<le> m" by (simp add: f_def)
  have f2: "m < of_int f + 1" unfolding f_def by linarith
  show ?thesis
  proof (cases "m - of_int f < 1 / 2")
    case True
    have "(of_int f :: rat) < of_int k + 1 / 2" using f1 assms(2) by simp
    moreover have "(of_int k :: rat) - 1 / 2 < of_int f + 1 / 2" using True assms(1) by simp
    ultimately have "(of_int f :: rat) < of_int (k + 1)" "(of_int (k - 1) :: rat) < of_int f"
      by simp_all
    then have "f < k + 1" "k - 1 < f" by (simp_all only: of_int_less_iff)
    then have "f = k" by simp
    then show ?thesis using True by (simp add: round_even_def Let_def f_def)
  next
    case False
    then have ge: "1 / 2 \<le> m - of_int f" by simp
    have "(of_int f :: rat) + 1 / 2 < of_int k + 1 / 2" using ge assms(2) by simp
    moreover have "(of_int k :: rat) - 1 / 2 < of_int f + 1" using f2 assms(1) by simp
    ultimately have "(of_int f :: rat) < of_int k" "(of_int (k - 2) :: rat) < of_int f"
      by simp_all
    then have "f < k" "k - 2 < f" by (simp_all only: of_int_less_iff)
    then have fk: "f + 1 = k" by simp
    have "m - of_int f \<noteq> 1 / 2"
    proof
      assume "m - of_int f = 1 / 2"
      then have "m = of_int k - 1 / 2" using fk by (simp add: algebra_simps flip: of_int_add)
      with assms(1) show False by simp
    qed
    with ge have "1 / 2 < m - of_int f" by simp
    then show ?thesis using fk by (simp add: round_even_def Let_def f_def)
  qed
qed

lemma rnd_not_NaN: "rnd x \<noteq> NaN"
  by (simp add: rnd_def Let_def)

lemma rnd_pos_eval:
  assumes "2 powi e \<le> x" and "x < 2 powi (e + 1)" and "- 1022 \<le> e"
    and "round_even (x / 2 powi (e - 52)) = k"
    and "r = of_int k * 2 powi (e - 52)"
    and "r < 2 ^ 1024"
  shows "rnd x = Fin r"
proof -
  have pos: "0 < x" using assms(1) by (rule less_le_trans[rotated]) simp
  have "ilog2 x = e" using assms(1,2) by (rule ilog2_unique)
  then have "max (ilog2 \<bar>x\<bar>) (- 1022) = e" using pos assms(3) by simp
  then show ?thesis using pos assms(4,5,6) by (simp add: rnd_def Let_def)
qed

lemma rnd_finite:
  assumes "\<bar>x\<bar> \<le> 2 ^ 1022"
  shows "\<exists>r. rnd x = Fin r"
proof (cases "x = 0")
  case True
  then show ?thesis by (simp add: rnd_def)
next
  case False
  define a where "a = \<bar>x\<bar>"
  define e where "e = max (ilog2 a) (- 1022)"
  define q where "q = (2::rat) powi (e - 52)"
  define r where "r = of_int (round_even (a / q)) * q"
  have a: "0 < a" using False by (simp add: a_def)
  have q: "0 < q" by (simp add: q_def)
  have qle: "q \<le> max a 1"
  proof (cases "- 1022 \<le> ilog2 a")
    case True
    then have "e = ilog2 a" by (simp add: e_def)
    then have "q \<le> 2 powi (ilog2 a)"
      unfolding q_def by (intro power_int_increasing) simp_all
    also have "\<dots> \<le> a" using a by (rule ilog2_lower)
    finally show ?thesis by simp
  next
    case False
    then have "e = - 1022" by (simp add: e_def)
    then have "q \<le> 2 powi 0" unfolding q_def by (intro power_int_increasing) simp_all
    then show ?thesis by simp
  qed
  have "r \<le> (a / q + 1) * q"
    unfolding r_def using q round_even_upper[of "a / q"] by (intro mult_right_mono) simp_all
  also have "\<dots> = a + q" using q by (simp add: field_simps)
  also have "\<dots> \<le> 2 ^ 1022 + max a 1" using assms qle by (simp add: a_def)
  also have "\<dots> \<le> 2 ^ 1022 + 2 ^ 1022" using assms by (simp add: a_def)
  also have "\<dots> < (2::rat) ^ 1024" by simp
  finally have "\<not> 2 ^ 1024 \<le> r" by simp
  then show ?thesis
    using False unfolding rnd_def Let_def a_def[symmetric] e_def[symmetric] q_def[symmetric]
      r_def[symmetric] by simp
qed

lemma rnd_of_int:
  assumes "\<bar>k\<bar> \<le> 2 ^ 53"
  shows "rnd (of_int k) = Fin (of_int k)"
proof (cases "k = 0")
  case True
  then show ?thesis by (simp add: rnd_def)
next
  case False
  define a :: rat where "a = \<bar>of_int k\<bar>"
  define e where "e = max (ilog2 a) (- 1022)"
  define q where "q = (2::rat) powi (e - 52)"
  define r where "r = of_int (round_even (a / q)) * q"
  have a1: "1 \<le> a" using False by (simp add: a_def flip: of_int_abs)
  have a: "0 < a" using a1 by simp
  have ak: "a = of_int \<bar>k\<bar>" by (simp add: a_def)
  have aup: "a \<le> 2 ^ 53"
  proof -
    have "(of_int \<bar>k\<bar> :: rat) \<le> of_int (2 ^ 53)" using assms by (simp only: of_int_le_iff)
    then show ?thesis by (simp add: ak)
  qed
  have "(2::rat) powi 0 < 2 powi (ilog2 a + 1)" using ilog2_upper[OF a] a1 by simp
  then have lo: "0 \<le> ilog2 a" using pow2_less_imp by fastforce
  have "(2::rat) powi (ilog2 a) \<le> 2 powi 53" using ilog2_lower[OF a] aup by simp
  then have hi: "ilog2 a \<le> 53" by (rule pow2_le_imp)
  have e: "e = ilog2 a" using lo by (simp add: e_def)
  have int: "\<exists>j. a / q = of_int j"
  proof (cases "e \<le> 52")
    case True
    then have "1 / q = 2 powi (52 - e)" by (simp add: q_def power_int_diff)
    also have "\<dots> = 2 ^ nat (52 - e)" using True by (simp add: power_int_nonneg_exp)
    finally have iq: "1 / q = 2 ^ nat (52 - e)" .
    have "a / q = a * (1 / q)" by simp
    also have "\<dots> = of_int (\<bar>k\<bar> * 2 ^ nat (52 - e))" unfolding iq by (simp add: ak)
    finally show ?thesis by blast
  next
    case False
    then have e53: "e = 53" using hi e by simp
    then have "(2::rat) ^ 53 \<le> a" using ilog2_lower[OF a] e by simp
    then have "a = 2 ^ 53" using aup by simp
    then have "a / q = of_int (2 ^ 52)" by (simp add: q_def e53)
    then show ?thesis by blast
  qed
  then obtain j where j: "a / q = of_int j" by blast
  have q: "0 < q" by (simp add: q_def)
  have "r = a" unfolding r_def j round_even_of_int using j q by (simp add: field_simps)
  moreover have "a < 2 ^ 1024" using aup by (rule le_less_trans) simp
  ultimately show ?thesis
    using False unfolding rnd_def Let_def a_def[symmetric] e_def[symmetric] q_def[symmetric]
      r_def[symmetric] by (auto simp: a_def)
qed

lemma eps_value: "rnd (1 / 100000) = Fin (5902958103587057 / 2 ^ 69)"
proof (rule rnd_pos_eval[where e = "- 17" and k = 5902958103587057])
  show "round_even (1 / 100000 / 2 powi (- 17 - 52)) = 5902958103587057"
    by (rule round_even_eq) simp_all
qed simp_all

lemma rnd_numeral:
  "(numeral w :: int) \<le> 2 ^ 53 \<Longrightarrow> rnd (numeral w) = Fin (numeral w)"
  using rnd_of_int[of "numeral w"] by simp

lemma rnd_one: "rnd 1 = Fin 1"
  using rnd_of_int[of 1] by simp

lemma js_int_exact: "\<bar>k\<bar> \<le> 2 ^ 53 \<Longrightarrow> js_int k = Fin (of_int k)"
  by (simp add: js_int_def rnd_of_int)

lemma js_int_not_NaN: "js_int k \<noteq> NaN"
  by (simp add: js_int_def rnd_not_NaN)

lemma fadd_Fin_not_NaN: "a \<noteq> NaN \<Longrightarrow> fadd a (Fin b) \<noteq> NaN"
  by (cases a) (simp_all add: rnd_not_NaN)

lemma fadd_Fin_left_not_NaN: "a \<noteq> NaN \<Longrightarrow> fadd (Fin b) a \<noteq> NaN"
  by (cases a) (simp_all add: rnd_not_NaN)

lemma fmul_Fin_not_NaN: "a \<noteq> NaN \<Longrightarrow> c \<noteq> 0 \<Longrightarrow> fmul a (Fin c) \<noteq> NaN"
  by (cases a) (simp_all add: rnd_not_NaN)

lemma fdiv_Fin_not_NaN: "a \<noteq> NaN \<Longrightarrow> c \<noteq> 0 \<Longrightarrow> fdiv a (Fin c) \<noteq> NaN"
  by (cases a) (simp_all add: rnd_not_NaN)


text \<open>The clamp \<^verbatim>\<open>Math.max(0, Math.min(b, x))\<close> of a number that is not \<^verbatim>\<open>NaN\<close>.\<close>

lemma clamp_finite:
  assumes "x \<noteq> NaN"
  shows "\<exists>v. Math_max (Fin 0) (Math_min (Fin b) x) = Fin v"
  using assms by (cases x) (auto simp: Math_max_def Math_min_def)


section \<open>The 3D editor: coordinates, items and history\<close>

lemma saveHistory3_simps:
  "model3 (saveHistory3 s) = model3 s"
  "gridSize3 (saveHistory3 s) = gridSize3 s"
  "cellSize (saveHistory3 s) = cellSize s"
  "currentTool3 (saveHistory3 s) = currentTool3 s"
  "isPointerDown3 (saveHistory3 s) = isPointerDown3 s"
  "history3 (saveHistory3 s) = push_capped 200 (history3 s) (JSON_stringify3 (model3 s))"
  by (simp_all add: saveHistory3_def)

lemma set_items_simps:
  "n3 (model3 (set_items its s)) = n3 (model3 s)"
  "cell (model3 (set_items its s)) = cell (model3 s)"
  "items (model3 (set_items its s)) = its"
  "gridSize3 (set_items its s) = gridSize3 s"
  "cellSize (set_items its s) = cellSize s"
  "currentTool3 (set_items its s) = currentTool3 s"
  "isPointerDown3 (set_items its s) = isPointerDown3 s"
  "history3 (set_items its s) = history3 s"
  by (simp_all add: set_items_def)

lemma addItem_simps:
  "items (model3 (addItem k ix iz s)) = filter (not_at ix iz) (items (model3 s)) @
     [[(''type'', Some (IStr (kind_name k))), (''ix'', Some (INum ix)), (''iz'', Some (INum iz))]]"
  "n3 (model3 (addItem k ix iz s)) = n3 (model3 s)"
  "cell (model3 (addItem k ix iz s)) = cell (model3 s)"
  "history3 (addItem k ix iz s) = push_capped 200 (history3 s) (JSON_stringify3 (model3 s))"
  "currentTool3 (addItem k ix iz s) = currentTool3 s"
  by (simp_all add: addItem_def Let_def set_items_simps saveHistory3_simps)

lemma removeItemAt_simps:
  "items (model3 (removeItemAt ix iz s)) = filter (not_at ix iz) (items (model3 s))"
  "n3 (model3 (removeItemAt ix iz s)) = n3 (model3 s)"
  "cell (model3 (removeItemAt ix iz s)) = cell (model3 s)"
  "history3 (removeItemAt ix iz s) = push_capped 200 (history3 s) (JSON_stringify3 (model3 s))"
  by (simp_all add: removeItemAt_def Let_def set_items_simps saveHistory3_simps)

lemma to_grid_space_not_NaN:
  assumes "dims_ok (n3 m) (cell m)"
  shows "to_grid_space m p \<noteq> NaN"
proof -
  have c: "cell m \<noteq> 0" and cb: "\<bar>cell m\<bar> \<le> 2 ^ 1022" using assms by (simp_all add: dims_ok_def)
  have "\<bar>cell m / 2\<bar> \<le> 2 ^ 1022" using cb by simp
  then obtain h where h: "rnd (cell m / 2) = Fin h" using rnd_finite by blast
  have "fmul (js_int (n3 m)) (Fin (cell m)) \<noteq> NaN"
    using js_int_not_NaN c by (rule fmul_Fin_not_NaN)
  then have "fdiv (fmul (js_int (n3 m)) (Fin (cell m))) (Fin 2) \<noteq> NaN"
    by (rule fdiv_Fin_not_NaN) simp
  then have "fadd (Fin p) (fdiv (fmul (js_int (n3 m)) (Fin (cell m))) (Fin 2)) \<noteq> NaN"
    by (rule fadd_Fin_left_not_NaN)
  then have "fadd (fadd (Fin p) (fdiv (fmul (js_int (n3 m)) (Fin (cell m))) (Fin 2))) (Fin (- h)) \<noteq> NaN"
    by (rule fadd_Fin_not_NaN)
  then show ?thesis by (simp add: to_grid_space_def fsub_def h)
qed

lemma floored_not_NaN:
  assumes "x \<noteq> NaN" and "c \<noteq> 0"
  shows "Math_floor (fadd (fdiv x (Fin c)) (rnd (1 / 100000))) \<noteq> NaN"
proof -
  have "fdiv x (Fin c) \<noteq> NaN" using assms by (rule fdiv_Fin_not_NaN)
  then have "fadd (fdiv x (Fin c)) (Fin (5902958103587057 / 2 ^ 69)) \<noteq> NaN"
    by (rule fadd_Fin_not_NaN)
  then show ?thesis
    unfolding eps_value by (cases "fadd (fdiv x (Fin c)) (Fin (5902958103587057 / 2 ^ 69))") simp_all
qed

lemma upper_index_finite:
  assumes "\<bar>k\<bar> \<le> 2 ^ 53"
  shows "\<exists>b. fsub (js_int k) (Fin 1) = Fin b"
proof -
  have "\<bar>rat_of_int k\<bar> \<le> 2 ^ 53"
  proof -
    have "rat_of_int \<bar>k\<bar> \<le> of_int (2 ^ 53)" using assms by (simp only: of_int_le_iff)
    then show ?thesis by simp
  qed
  then have "\<bar>rat_of_int k + - 1\<bar> \<le> 2 ^ 53 + 1" by simp
  also have "\<dots> \<le> (2::rat) ^ 1022" by simp
  finally obtain b where "rnd (rat_of_int k + - 1) = Fin b" using rnd_finite by blast
  then show ?thesis using assms by (simp add: fsub_def js_int_exact)
qed

lemma coords_finite:
  assumes "dims_ok (n3 m) (cell m)" and "x \<noteq> NaN" and "z \<noteq> NaN"
  shows "\<exists>a b. getGridCoordsFromIntersection m (x, z) = (Fin a, Fin b)"
proof -
  have c: "cell m \<noteq> 0" and k: "\<bar>n3 m\<bar> \<le> 2 ^ 53" using assms(1) by (simp_all add: dims_ok_def)
  obtain u where u: "fsub (js_int (n3 m)) (Fin 1) = Fin u" using upper_index_finite[OF k] by blast
  have "Math_floor (fadd (fdiv x (Fin (cell m))) (rnd (1 / 100000))) \<noteq> NaN"
    using assms(2) c by (rule floored_not_NaN)
  then obtain a where a: "Math_max (Fin 0)
      (Math_min (Fin u) (Math_floor (fadd (fdiv x (Fin (cell m))) (rnd (1 / 100000))))) = Fin a"
    using clamp_finite by blast
  have "Math_floor (fadd (fdiv z (Fin (cell m))) (rnd (1 / 100000))) \<noteq> NaN"
    using assms(3) c by (rule floored_not_NaN)
  then obtain b where b: "Math_max (Fin 0)
      (Math_min (Fin u) (Math_floor (fadd (fdiv z (Fin (cell m))) (rnd (1 / 100000))))) = Fin b"
    using clamp_finite by blast
  show ?thesis by (simp add: getGridCoordsFromIntersection_def Let_def u a b)
qed

lemma hit_coords_finite:
  assumes "dims_ok (n3 m) (cell m)"
  shows "\<exists>a b. getGridCoordsFromIntersection m (to_grid_space m p, to_grid_space m q) = (Fin a, Fin b)"
  using assms by (intro coords_finite to_grid_space_not_NaN)

lemma item_ok_new:
  "item_ok [(''type'', Some (IStr nm)), (''ix'', Some (INum (Fin a))), (''iz'', Some (INum (Fin b)))]"
  by (simp add: item_ok_def val_ok_def)

lemma item_ok_parse: "item_ok (parse_item jo)"
proof (induction jo)
  case Nil
  then show ?case by (simp add: item_ok_def parse_item_def)
next
  case (Cons kj jo)
  obtain k j where kj: "kj = (k, j)" by (cases kj)
  have "val_ok (Some (parse_val j))" by (cases j) (simp_all add: val_ok_def)
  then show ?case using Cons by (simp add: item_ok_def parse_item_def kj)
qed

lemma val_roundtrip: "val_ok (Some u) \<Longrightarrow> parse_val (stringify_val u) = u"
proof (cases u)
  case (INum x)
  assume "val_ok (Some u)"
  then show ?thesis using INum by (cases x) (simp_all add: val_ok_def)
qed simp_all

lemma item_roundtrip: "item_ok it \<Longrightarrow> parse_item (stringify_item it) = it"
proof (induction it)
  case Nil
  then show ?case by (simp add: parse_item_def stringify_item_def List.map_filter_simps)
next
  case (Cons kv it)
  obtain k v where kv: "kv = (k, v)" by (cases kv)
  from Cons.prems obtain u where u: "v = Some u" "val_ok (Some u)"
    by (cases v) (simp_all add: item_ok_def kv val_ok_def)
  have "item_ok it" using Cons.prems by (simp add: item_ok_def)
  then have "parse_item (stringify_item it) = it" by (rule Cons.IH)
  then show ?case
    using u val_roundtrip[OF u(2)]
    by (simp add: parse_item_def stringify_item_def List.map_filter_simps kv)
qed

lemma roundtrip3: "list_all item_ok (items m) \<Longrightarrow> JSON_parse3 (JSON_stringify3 m) = m"
  by (simp add: JSON_parse3_def JSON_stringify3_def list_all_iff item_roundtrip map_idI)

lemma sane3_saveHistory: "sane3 s \<Longrightarrow> sane3 (saveHistory3 s)"
  by (simp add: sane3_def saveHistory3_simps list_all_push_capped JSON_stringify3_def)

lemma sane3_handle:
  assumes "sane3 s"
  shows "sane3 (handlePointerEvent hit s)"
proof (cases hit)
  case None
  then show ?thesis using assms by (simp add: handlePointerEvent_def)
next
  case (Some p)
  have d: "dims_ok (n3 (model3 s)) (cell (model3 s))" using assms by (simp add: sane3_def)
  obtain a b where ab: "getGridCoordsFromIntersection (model3 s)
      (to_grid_space (model3 s) (fst p), to_grid_space (model3 s) (snd p)) = (Fin a, Fin b)"
    using hit_coords_finite[OF d] by blast
  have h: "list_all (\<lambda>d. dims_ok (snap3_n d) (snap3_cell d))
      (push_capped 200 (history3 s) (JSON_stringify3 (model3 s)))"
    using assms by (intro list_all_push_capped) (simp_all add: sane3_def JSON_stringify3_def)
  have its: "list_all item_ok (items (model3 s))" using assms by (simp add: sane3_def)
  then have f: "list_all item_ok (filter (not_at (Fin a) (Fin b)) (items (model3 s)))"
    by (simp add: list_all_iff)
  show ?thesis
  proof (cases "currentTool3 s")
    case (Paint k)
    then show ?thesis
      using d h f by (simp add: handlePointerEvent_def Some Let_def ab sane3_def addItem_simps item_ok_new)
  next
    case Erase
    then show ?thesis
      using d h f by (simp add: handlePointerEvent_def Some Let_def ab sane3_def removeItemAt_simps)
  next
    case Select
    then show ?thesis using assms by (simp add: handlePointerEvent_def Some Let_def)
  qed
qed

lemma sane3_flags:
  "sane3 (s\<lparr>isPointerDown3 := b\<rparr>) = sane3 s"
  "sane3 (s\<lparr>currentTool3 := t\<rparr>) = sane3 s"
  by (simp_all add: sane3_def)

lemma sane3_step:
  assumes "sane3 s"
  shows "sane3 (step3D e s)"
proof (cases e)
  case (PointerDown3 hit)
  then show ?thesis
    using assms sane3_handle[of "s\<lparr>isPointerDown3 := True\<rparr>" hit]
    by (simp add: pointerdown3_def sane3_flags)
next
  case (PointerMove3 hit)
  then show ?thesis using assms by (simp add: pointermove3_def sane3_handle)
next
  case PointerUp3
  then show ?thesis using assms by (simp add: pointerup3_def sane3_flags)
next
  case (ToolClick3 t)
  then show ?thesis using assms by (simp add: toolClick3_def sane3_flags)
next
  case (Resize3 gv cv)
  have "dims_ok (max 8 (min 128 (or_default gv 24))) (max (1 / 2) (min 8 (or_default cv 2)))"
    by (simp add: dims_ok_def max_def min_def)
  then show ?thesis by (simp add: Resize3 resizeBtn3_def Let_def sane3_def)
next
  case Undo3
  show ?thesis
  proof (cases "history3 s = []")
    case True
    then show ?thesis using assms by (simp add: Undo3 undoBtn3_def)
  next
    case False
    have h: "list_all (\<lambda>d. dims_ok (snap3_n d) (snap3_cell d)) (history3 s)"
      using assms by (simp add: sane3_def)
    have "dims_ok (snap3_n (last (history3 s))) (snap3_cell (last (history3 s)))"
      using list_all_last[OF h False] .
    then show ?thesis
      using False list_all_butlast[OF h]
      by (simp add: Undo3 undoBtn3_def sane3_def JSON_parse3_def list_all_iff item_ok_parse)
  qed
next
  case Clear3
  have "sane3 (saveHistory3 s)" using assms by (rule sane3_saveHistory)
  then show ?thesis by (simp add: Clear3 clearBtn3_def Let_def sane3_def set_items_simps)
qed

lemma sane3_run: "sane3 s \<Longrightarrow> sane3 (run3D es s)"
  by (induction es arbitrary: s) (simp_all add: sane3_step)

lemma sane3_init: "load_ok gv cv \<Longrightarrow> sane3 (init3D gv cv)"
  by (simp add: init3D_def Let_def sane3_def load_ok_def)

lemma reachable3D_roundtrip:
  "load_ok gv cv \<Longrightarrow>
   JSON_parse3 (JSON_stringify3 (model3 (run3D es (init3D gv cv)))) = model3 (run3D es (init3D gv cv))"
  using sane3_run[OF sane3_init, of gv cv es] by (simp add: sane3_def roundtrip3)

section \<open>History length\<close>

lemma foldl_push_capped: "foldl (push_capped cap) [] xs = drop (length xs - cap) xs"
proof (induction xs rule: rev_induct)
  case Nil
  then show ?case by simp
next
  case (snoc x xs)
  then show ?case using push_capped_drop[of cap xs x] by simp
qed

lemma length_push_capped: "length h \<le> cap \<Longrightarrow> length (push_capped cap h x) \<le> cap"
  by (auto simp: push_capped_def Let_def)

lemma hist3_step: "length (history3 s) \<le> 200 \<Longrightarrow> length (history3 (step3D e s)) \<le> 200"
  by (cases e)
    (auto simp: pointerdown3_def pointermove3_def pointerup3_def toolClick3_def resizeBtn3_def
       undoBtn3_def clearBtn3_def handlePointerEvent_def Let_def addItem_simps removeItemAt_simps
       set_items_simps saveHistory3_simps length_push_capped split: option.splits tool.splits)

lemma hist3_run: "length (history3 s) \<le> 200 \<Longrightarrow> length (history3 (run3D es s)) \<le> 200"
  by (induction es arbitrary: s) (simp_all add: hist3_step)

lemma hist2_handle:
  "length (history s) \<le> 100 \<Longrightarrow> handleCellAction idx s = Inr s' \<Longrightarrow> length (history s') \<le> 100"
  by (cases "currentTool s")
    (auto simp: handleCellAction_def Let_def saveHistory_simps set_cell_simps length_push_capped
       split: if_splits)

lemma hist2_step:
  "length (history s) \<le> 100 \<Longrightarrow> step2D e s = Inr s' \<Longrightarrow> length (history s') \<le> 100"
  using hist2_handle[of "s\<lparr>isPointerDown := True, pointerTool := Some (currentTool s)\<rparr>" _ s']
    hist2_handle[of s _ s']
  by (cases e)
    (auto simp: onPointerDown_def onPointerEnter_def onPointerUp_def selectTool_def resizeBtn_def
       undoBtn_def clearBtn_def Let_def saveHistory_simps length_push_capped split: if_splits)

lemma hist2_run:
  "length (history s) \<le> 100 \<Longrightarrow> run2D es s = Inr s' \<Longrightarrow> length (history s') \<le> 100"
proof (induction es arbitrary: s)
  case Nil
  then show ?case by simp
next
  case (Cons e es)
  then show ?case by (auto split: sum.splits dest: hist2_step)
qed

section \<open>Painting, selecting and clearing\<close>

lemma model_set_cell: "model (set_cell idx t s) = (model s)\<lparr>cells := (cells (model s))[idx := t]\<rparr>"
  by (simp add: set_cell_def)

lemma handleCellAction_paint:
  assumes "currentTool s = Paint k" and "idx < length (cells (model s))"
  shows "handleCellAction idx s =
           Inr (set_cell idx (Obj [(''type'', Some (Str (kind_name k)))]) (saveHistory s))"
  using assms by (simp add: handleCellAction_def Let_def saveHistory_simps)

lemma handleCellAction_flags:
  assumes "handleCellAction idx s = Inr s'"
  shows "pointerTool s' = pointerTool s \<and> currentTool s' = currentTool s \<and>
         isPointerDown s' = isPointerDown s"
  using assms by (cases "currentTool s")
    (auto simp: handleCellAction_def Let_def set_cell_simps saveHistory_simps split: if_splits)

lemma select_other_cells:
  assumes "handleCellAction idx s = Inr s'" and "j \<noteq> idx"
  shows "cells (model s') ! j = cells (model s) ! j"
  using assms by (cases "currentTool s")
    (auto simp: handleCellAction_def Let_def set_cell_simps saveHistory_simps split: if_splits)

lemma select_toggle_unselected:
  "cell_get c ''type'' \<noteq> Some (Str ''selected'') \<Longrightarrow>
   select_toggle c = Obj [(''type'', Some (Str ''selected'')), (''prevType'', cell_get c ''type'')]"
  by (simp add: select_toggle_def)

lemma select_toggle_selected:
  "select_toggle (Obj [(''type'', Some (Str ''selected'')), (''prevType'', Some (Str (kind_name k)))]) =
     Prim (Str (kind_name k))"
  by (cases k) (simp_all add: select_toggle_def cell_get_def getp_def truthy_def)

lemma stroke_tool_guard_2d:
  "pointerTool s \<noteq> Some (currentTool s) \<Longrightarrow> onPointerEnter idx s = Inr s"
  by (simp add: onPointerEnter_def)

lemma tool_switch_mid_drag_2d:
  assumes "onPointerDown idx s = Inr s1" and "b \<noteq> currentTool s"
  shows "onPointerEnter j (selectTool b s1) = Inr (selectTool b s1)"
proof -
  have "pointerTool s1 = Some (currentTool s)"
    using handleCellAction_flags[OF assms(1)[unfolded onPointerDown_def]] by simp
  then have "pointerTool (selectTool b s1) \<noteq> Some (currentTool (selectTool b s1))"
    using assms(2) by (auto simp: selectTool_def)
  then show ?thesis by (rule stroke_tool_guard_2d)
qed

lemma model3_addItem:
  "model3 (addItem k ix iz s) =
     (model3 s)\<lparr>items := filter (not_at ix iz) (items (model3 s)) @
        [[(''type'', Some (IStr (kind_name k))), (''ix'', Some (INum ix)), (''iz'', Some (INum iz))]]\<rparr>"
  by (simp add: addItem_def Let_def set_items_def saveHistory3_def)

lemma addItem_flags:
  "isPointerDown3 (addItem k ix iz s) = isPointerDown3 s"
  "gridSize3 (addItem k ix iz s) = gridSize3 s"
  "cellSize (addItem k ix iz s) = cellSize s"
  by (simp_all add: addItem_def Let_def set_items_simps saveHistory3_simps)

lemma not_at_new_item:
  "ix \<noteq> NaN \<Longrightarrow> iz \<noteq> NaN \<Longrightarrow>
   \<not> not_at ix iz [(''type'', Some (IStr nm)), (''ix'', Some (INum ix)), (''iz'', Some (INum iz))]"
  by (simp add: not_at_def item_get_def strict_eq_num_def)

lemma addItem_twice:
  "ix \<noteq> NaN \<Longrightarrow> iz \<noteq> NaN \<Longrightarrow>
   model3 (addItem k ix iz (addItem k ix iz s)) = model3 (addItem k ix iz s)"
  by (simp add: model3_addItem not_at_new_item)

lemma getGridCoords_addItem:
  "getGridCoordsFromIntersection (model3 (addItem k ix iz s)) q =
     getGridCoordsFromIntersection (model3 s) q"
  by (simp add: getGridCoordsFromIntersection_def addItem_simps)

lemma to_grid_space_addItem:
  "to_grid_space (model3 (addItem k ix iz s)) p = to_grid_space (model3 s) p"
  by (simp add: to_grid_space_def addItem_simps)

lemma handlePointerEvent_paint:
  assumes "currentTool3 s = Paint k"
    and "getGridCoordsFromIntersection (model3 s)
           (to_grid_space (model3 s) (fst p), to_grid_space (model3 s) (snd p)) = (ix, iz)"
  shows "handlePointerEvent (Some p) s = addItem k ix iz s"
  using assms by (simp add: handlePointerEvent_def Let_def)

section \<open>Coordinates on the default grid\<close>


lemma floored_eval:
  assumes "c \<noteq> 0" and "rnd (y / c) = Fin u"
    and "rnd (u + 5902958103587057 / 2 ^ 69) = Fin w" and "\<lfloor>w\<rfloor> = i"
  shows "Math_floor (fadd (fdiv (Fin y) (Fin c)) (rnd (1 / 100000))) = Fin (of_int i)"
  using assms by (simp add: eps_value)

lemma rnd_23_half: "rnd (23 / 2) = Fin (23 / 2)"
proof (rule rnd_pos_eval[where e = 3 and k = 6473924464345088])
  show "round_even (23 / 2 / 2 powi (3 - 52)) = 6473924464345088"
    by (rule round_even_eq) simp_all
qed simp_all

lemma rnd_25_half: "rnd (25 / 2) = Fin (25 / 2)"
proof (rule rnd_pos_eval[where e = 3 and k = 7036874417766400])
  show "round_even (25 / 2 / 2 powi (3 - 52)) = 7036874417766400"
    by (rule round_even_eq) simp_all
qed simp_all

lemma rnd_23_half_eps:
  "rnd (23 / 2 + 5902958103587057 / 2 ^ 69) = Fin (3236965046922311 / 281474976710656)"
proof (rule rnd_pos_eval[where e = 3 and k = 6473930093844622])
  show "round_even ((23 / 2 + 5902958103587057 / 2 ^ 69) / 2 powi (3 - 52)) = 6473930093844622"
    by (rule round_even_eq) simp_all
qed simp_all

lemma rnd_25_half_eps:
  "rnd (25 / 2 + 5902958103587057 / 2 ^ 69) = Fin (3518440023632967 / 281474976710656)"
proof (rule rnd_pos_eval[where e = 3 and k = 7036880047265934])
  show "round_even ((25 / 2 + 5902958103587057 / 2 ^ 69) / 2 powi (3 - 52)) = 7036880047265934"
    by (rule round_even_eq) simp_all
qed simp_all

lemma floored_23: "Math_floor (fadd (fdiv (Fin 23) (Fin 2)) (rnd (1 / 100000))) = Fin 11"
proof -
  have "\<lfloor>3236965046922311 / 281474976710656 :: rat\<rfloor> = 11"
    by (rule floor_unique) simp_all
  from floored_eval[OF _ rnd_23_half rnd_23_half_eps this] show ?thesis by simp
qed

lemma floored_25: "Math_floor (fadd (fdiv (Fin 25) (Fin 2)) (rnd (1 / 100000))) = Fin 12"
proof -
  have "\<lfloor>3518440023632967 / 281474976710656 :: rat\<rfloor> = 12"
    by (rule floor_unique) simp_all
  from floored_eval[OF _ rnd_25_half rnd_25_half_eps this] show ?thesis by simp
qed

lemma default_to_grid_space:
  assumes "n3 m = 24" and "cell m = 2"
  shows "to_grid_space m 0 = Fin 23" and "to_grid_space m 2 = Fin 25"
  using assms
  by (simp_all add: to_grid_space_def fsub_def js_int_exact rnd_numeral rnd_one)

lemma default_upper_index: "n3 m = 24 \<Longrightarrow> fsub (js_int (n3 m)) (Fin 1) = Fin 23"
  by (simp add: fsub_def js_int_exact rnd_numeral)

lemma default_coords:
  assumes "n3 m = 24" and "cell m = 2"
  shows "getGridCoordsFromIntersection m (to_grid_space m 0, to_grid_space m 0) = (Fin 11, Fin 11)"
    and "getGridCoordsFromIntersection m (to_grid_space m 2, to_grid_space m 0) = (Fin 12, Fin 11)"
proof -
  have u: "fsub (js_int (n3 m)) (Fin 1) = Fin 23" using assms(1) by (rule default_upper_index)
  have g0: "to_grid_space m 0 = Fin 23" and g2: "to_grid_space m 2 = Fin 25"
    using assms by (rule default_to_grid_space)+
  have c11: "Math_max (Fin 0) (Math_min (Fin 23) (Fin 11)) = Fin 11"
    and c12: "Math_max (Fin 0) (Math_min (Fin 23) (Fin 12)) = Fin 12"
    by (simp_all add: Math_max_def Math_min_def)
  show "getGridCoordsFromIntersection m (to_grid_space m 0, to_grid_space m 0) = (Fin 11, Fin 11)"
    unfolding getGridCoordsFromIntersection_def Let_def g0 u fst_conv snd_conv assms(2)
      floored_23 c11 by (rule refl)
  show "getGridCoordsFromIntersection m (to_grid_space m 2, to_grid_space m 0) = (Fin 12, Fin 11)"
    unfolding getGridCoordsFromIntersection_def Let_def g0 g2 u fst_conv snd_conv assms(2)
      floored_23 floored_25 c11 c12 by (rule refl)
qed

section \<open>Indices within the grid\<close>





section \<open>Painting on the default 3D grid\<close>

lemma handle_default:
  assumes "n3 (model3 s) = 24" and "cell (model3 s) = 2" and "currentTool3 s = Paint k"
  shows "handlePointerEvent (Some (0, 0)) s = addItem k (Fin 11) (Fin 11) s"
    and "handlePointerEvent (Some (2, 0)) s = addItem k (Fin 12) (Fin 11) s"
proof -
  show "handlePointerEvent (Some (0, 0)) s = addItem k (Fin 11) (Fin 11) s"
    using assms(3) default_coords(1)[OF assms(1,2)] by (intro handlePointerEvent_paint) simp_all
  show "handlePointerEvent (Some (2, 0)) s = addItem k (Fin 12) (Fin 11) s"
    using assms(3) default_coords(2)[OF assms(1,2)] by (intro handlePointerEvent_paint) simp_all
qed

lemma init3D_default:
  "n3 (model3 (init3D None None)) = 24" "cell (model3 (init3D None None)) = 2"
  "items (model3 (init3D None None)) = []" "currentTool3 (init3D None None) = Paint Pitch"
  "history3 (init3D None None) = []"
  by (simp_all add: init3D_def Let_def or_default_def)

lemma paint_at_origin:
  "run3D [PointerDown3 (Some (0, 0))] (init3D None None) =
     addItem Pitch (Fin 11) (Fin 11) ((init3D None None)\<lparr>isPointerDown3 := True\<rparr>)"
  by (simp add: pointerdown3_def handle_default(1) init3D_default)

lemma items_paint_at_origin:
  "items (model3 (run3D [PointerDown3 (Some (0, 0))] (init3D None None))) =
     [[(''type'', Some (IStr ''pitch'')), (''ix'', Some (INum (Fin 11))), (''iz'', Some (INum (Fin 11)))]]"
  unfolding paint_at_origin by (simp add: addItem_simps init3D_default)

lemma load_ok_default: "load_ok None None"
  by (simp add: load_ok_def dims_ok_def or_default_def)

section \<open>Reachable states and undo after clear\<close>

lemma reachable2D:
  "\<exists>s. run2D es (init2D gv pv) = Inr s \<and> grid_inv s \<and> keys_inv s"
proof -
  obtain s where s: "run2D es (init2D gv pv) = Inr s" "grid_inv s"
    using grid_inv_run[OF grid_inv_init] by blast
  from keys_inv_run[OF keys_inv_init s(1)] s show ?thesis by blast
qed

lemma plain_cell_roundtrip: "plain_cell c \<Longrightarrow> parse_cell (stringify_cell c) = c"
  by (cases c) (simp_all add: plain_cell_def parse_cell_def stringify_cell_def plain_roundtrip)

lemma plain_model_roundtrip:
  "list_all plain_cell (cells m) \<Longrightarrow> JSON_parse2 (JSON_stringify2 m) = m"
  by (simp add: JSON_parse2_def JSON_stringify2_def list_all_iff plain_cell_roundtrip map_idI)

lemma undefined_prevType_omitted:
  "parse_cell (stringify_cell (Obj [(''type'', Some (Str ''selected'')), (''prevType'', None)])) =
     Obj [(''type'', Some (Str ''selected''))] \<and>
   same_cell (Obj [(''type'', Some (Str ''selected''))])
     (Obj [(''type'', Some (Str ''selected'')), (''prevType'', None)])"
  by (simp add: parse_cell_def stringify_cell_def parse_object_def stringify_object_def
      List.map_filter_simps same_cell_def getp_def)

lemma undo_after_clear: "model (undoBtn (clearBtn s)) = JSON_parse2 (JSON_stringify2 (model s))"
proof -
  have "history (clearBtn s) = push_capped 100 (history s) (JSON_stringify2 (model s))"
    by (simp add: clearBtn_def Let_def saveHistory_simps)
  moreover have "push_capped 100 (history s) (JSON_stringify2 (model s)) \<noteq> []"
    by (cases "history s") (simp_all add: push_capped_def Let_def)
  moreover have "last (push_capped 100 (history s) (JSON_stringify2 (model s))) =
      JSON_stringify2 (model s)"
    by (simp add: last_push_capped)
  ultimately show ?thesis by (simp add: undoBtn_def)
qed

lemma undo_after_clear3:
  "model3 (undoBtn3 (clearBtn3 t)) = JSON_parse3 (JSON_stringify3 (model3 t))"
proof -
  have "history3 (clearBtn3 t) = push_capped 200 (history3 t) (JSON_stringify3 (model3 t))"
    by (simp add: clearBtn3_def Let_def saveHistory3_simps set_items_simps)
  moreover have "push_capped 200 (history3 t) (JSON_stringify3 (model3 t)) \<noteq> []"
    by (cases "history3 t") (simp_all add: push_capped_def Let_def)
  moreover have "last (push_capped 200 (history3 t) (JSON_stringify3 (model3 t))) =
      JSON_stringify3 (model3 t)"
    by (simp add: last_push_capped)
  ultimately show ?thesis by (simp add: undoBtn3_def)
qed

section \<open>Claims\<close>

text \<open>
  C2. The history never holds more snapshots than its capacity, 100 in the 2D editor and
  200 in the 3D editor: \<^verbatim>\<open>saveHistory\<close> appends a snapshot and drops the oldest one
  when the length exceeds the capacity. After capacity + 1 pushes on an empty history the
  stack is the pushed sequence without its first snapshot (which is gone from the stack
  when the snapshots are distinct), and its last entry, the one a pop returns, is the
  last snapshot pushed. The bound holds in every reachable state of both editors.
\<close>

theorem history_capacity:
  "history (saveHistory s) = push_capped 100 (history s) (JSON_stringify2 (model s)) \<and>
   history3 (saveHistory3 t) = push_capped 200 (history3 t) (JSON_stringify3 (model3 t)) \<and>
   length (foldl (push_capped 100) [] xs) \<le> 100 \<and>
   length (foldl (push_capped 200) [] ys) \<le> 200 \<and>
   (length xs = 101 \<longrightarrow>
      foldl (push_capped 100) [] xs = tl xs \<and>
      last (foldl (push_capped 100) [] xs) = last xs \<and>
      (distinct xs \<longrightarrow> hd xs \<notin> set (foldl (push_capped 100) [] xs))) \<and>
   (length ys = 201 \<longrightarrow>
      foldl (push_capped 200) [] ys = tl ys \<and>
      last (foldl (push_capped 200) [] ys) = last ys \<and>
      (distinct ys \<longrightarrow> hd ys \<notin> set (foldl (push_capped 200) [] ys))) \<and>
   (\<exists>s'. run2D es (init2D gv pv) = Inr s' \<and> length (history s') \<le> 100) \<and>
   length (history3 (run3D es3 (init3D gv3 cv))) \<le> 200"
proof -
  have evict: "foldl (push_capped cap) [] zs = tl zs \<and>
      last (foldl (push_capped cap) [] zs) = last zs \<and>
      (distinct zs \<longrightarrow> hd zs \<notin> set (foldl (push_capped cap) [] zs))"
    if len: "length zs = Suc cap" and pos: "0 < cap" for cap and zs :: "'z list"
  proof -
    obtain z zs' where zs: "zs = z # zs'" using len by (cases zs) auto
    have zs': "zs' \<noteq> []" using len pos zs by auto
    have "foldl (push_capped cap) [] zs = drop 1 zs"
      using len by (simp add: foldl_push_capped)
    then have 1: "foldl (push_capped cap) [] zs = zs'" using zs by simp
    have 2: "tl zs = zs'" "last zs = last zs'" "hd zs = z" using zs zs' by simp_all
    have 3: "distinct zs \<longrightarrow> z \<notin> set zs'" using zs by simp
    show ?thesis unfolding 1 2 using 3 by simp
  qed
  have a: "history (saveHistory s) = push_capped 100 (history s) (JSON_stringify2 (model s))"
    by (simp add: saveHistory_simps)
  have b: "history3 (saveHistory3 t) = push_capped 200 (history3 t) (JSON_stringify3 (model3 t))"
    by (simp add: saveHistory3_simps)
  have c: "length (foldl (push_capped 100) [] xs) \<le> 100"
    by (simp add: foldl_push_capped)
  have d: "length (foldl (push_capped 200) [] ys) \<le> 200"
    by (simp add: foldl_push_capped)
  have e: "length xs = 101 \<longrightarrow>
      foldl (push_capped 100) [] xs = tl xs \<and>
      last (foldl (push_capped 100) [] xs) = last xs \<and>
      (distinct xs \<longrightarrow> hd xs \<notin> set (foldl (push_capped 100) [] xs))"
  proof (intro impI)
    assume "length xs = 101"
    then have "length xs = Suc 100" by simp
    moreover have "0 < (100::nat)" by simp
    ultimately show "foldl (push_capped 100) [] xs = tl xs \<and>
      last (foldl (push_capped 100) [] xs) = last xs \<and>
      (distinct xs \<longrightarrow> hd xs \<notin> set (foldl (push_capped 100) [] xs))"
      by (rule evict)
  qed
  have f: "length ys = 201 \<longrightarrow>
      foldl (push_capped 200) [] ys = tl ys \<and>
      last (foldl (push_capped 200) [] ys) = last ys \<and>
      (distinct ys \<longrightarrow> hd ys \<notin> set (foldl (push_capped 200) [] ys))"
  proof (intro impI)
    assume "length ys = 201"
    then have "length ys = Suc 200" by simp
    moreover have "0 < (200::nat)" by simp
    ultimately show "foldl (push_capped 200) [] ys = tl ys \<and>
      last (foldl (push_capped 200) [] ys) = last ys \<and>
      (distinct ys \<longrightarrow> hd ys \<notin> set (foldl (push_capped 200) [] ys))"
      by (rule evict)
  qed
  have g: "\<exists>s'. run2D es (init2D gv pv) = Inr s' \<and> length (history s') \<le> 100"
  proof -
    obtain s' where s': "run2D es (init2D gv pv) = Inr s'"
      using grid_inv_run[OF grid_inv_init] by blast
    have "length (history (init2D gv pv)) \<le> 100" by (simp add: init2D_def Let_def)
    from hist2_run[OF this s'] s' show ?thesis by blast
  qed
  have h: "length (history3 (run3D es3 (init3D gv3 cv))) \<le> 200"
    by (rule hist3_run) (simp add: init3D_def Let_def)
  from a b c d e f g h show ?thesis by blast
qed

theorem history_capacity_witness:
  "length (map int [0..<101]) = 101 \<and> distinct (map int [0..<101]) \<and>
   foldl (push_capped 100) [] (map int [0..<101]) = tl (map int [0..<101]) \<and>
   last (foldl (push_capped 100) [] (map int [0..<101])) = 100 \<and>
   hd (map int [0..<101]) \<notin> set (foldl (push_capped 100) [] (map int [0..<101])) \<and>
   length (map int [0..<201]) = 201 \<and> distinct (map int [0..<201]) \<and>
   foldl (push_capped 200) [] (map int [0..<201]) = tl (map int [0..<201]) \<and>
   last (foldl (push_capped 200) [] (map int [0..<201])) = 200 \<and>
   hd (map int [0..<201]) \<notin> set (foldl (push_capped 200) [] (map int [0..<201]))"
proof -
  have l1: "length (map int [0..<101]) = 101" by simp
  have d1: "distinct (map int [0..<101])" by (simp add: distinct_map)
  have l2: "length (map int [0..<201]) = 201" by simp
  have d2: "distinct (map int [0..<201])" by (simp add: distinct_map)
  have la1: "last (map int [0..<101]) = 100" by (simp add: last_map)
  have la2: "last (map int [0..<201]) = 200" by (simp add: last_map)
  from history_capacity[where xs = "map int [0..<101]" and ys = "map int [0..<201]"]
  show ?thesis using l1 d1 l2 d2 la1 la2 by metis
qed



text \<open>
  C4. The resize handler never rejects its input: the 2D editor clamps the parsed grid
  size into 8..64 and the 3D editor into 8..128, after replacing an unparsable input or 0
  by the default 24. The new model has that dimension, which lies within 8..128 in both
  editors.
\<close>

theorem resize_clamp:
  "gridSize (resizeBtn (Some v) pv s) = max 8 (min 64 (if v = 0 then 24 else v)) \<and>
   gridSize (resizeBtn None pv s) = 24 \<and>
   gridSize3 (resizeBtn3 (Some v) cv t) = max 8 (min 128 (if v = 0 then 24 else v)) \<and>
   gridSize3 (resizeBtn3 None cv t) = 24 \<and>
   n2 (model (resizeBtn gv pv s)) = gridSize (resizeBtn gv pv s) \<and>
   n3 (model3 (resizeBtn3 gv cv t)) = gridSize3 (resizeBtn3 gv cv t) \<and>
   8 \<le> gridSize (resizeBtn gv pv s) \<and> gridSize (resizeBtn gv pv s) \<le> 64 \<and>
   8 \<le> gridSize3 (resizeBtn3 gv cv t) \<and> gridSize3 (resizeBtn3 gv cv t) \<le> 128"
  by (simp add: resizeBtn_def resizeBtn3_def or_default_def Let_def createEmptyModel_def)

text \<open>
  The 2D editor turns the input 100 into 64, and both editors turn the input 0 into 24:
  neither is the input clamped into 8..128.
\<close>

theorem resize_clamp_counterexample:
  "gridSize (resizeBtn (Some 100) None (init2D None None)) \<noteq> max 8 (min 128 100) \<and>
   gridSize (resizeBtn (Some 0) None (init2D None None)) \<noteq> max 8 (min 128 0) \<and>
   gridSize3 (resizeBtn3 (Some 0) None (init3D None None)) \<noteq> max 8 (min 128 0)"
  by (simp add: resizeBtn_def resizeBtn3_def or_default_def Let_def)

text \<open>
  C8. With an empty history the undo handler returns at once: the state, with its model
  and its history, is unchanged in both editors, and nothing is raised.
\<close>

theorem undo_empty_noop:
  assumes "history s = []" and "history3 t = []"
  shows "undoBtn s = s \<and> step2D Undo s = Inr s \<and> undoBtn3 t = t \<and> step3D Undo3 t = t"
  using assms by (simp add: undoBtn_def undoBtn3_def)

theorem undo_empty_noop_witness:
  "history (init2D None None) = [] \<and> history3 (init3D None None) = [] \<and>
   undoBtn (init2D None None) = init2D None None \<and>
   step2D Undo (init2D None None) = Inr (init2D None None) \<and>
   undoBtn3 (init3D None None) = init3D None None \<and>
   step3D Undo3 (init3D None None) = init3D None None"
proof -
  have a: "history (init2D None None) = []" by (simp add: init2D_def Let_def)
  have b: "history3 (init3D None None) = []" by (simp add: init3D_def Let_def)
  from undo_empty_noop[OF a b] a b show ?thesis by simp
qed

text \<open>
  C7. Painting replaces the occupant: with a paint tool \<open>T\<close>, \<^verbatim>\<open>handleCellAction\<close> at
  an index of the grid stores the tile \<^verbatim>\<open>{type: T}\<close> in that cell, whatever it held,
  and leaves \<open>n\<close> and the other cells as they were; \<^verbatim>\<open>addItem\<close> at a coordinate
  removes every item there, appends \<^verbatim>\<open>{type: T, ix, iz}\<close> and leaves \<open>n\<close>, \<open>cell\<close> and
  the items elsewhere as they were, so the new item is the only one at the coordinate.
  Painting the same tile at the same place again gives the model that the first paint
  gave, in the 2D editor, through \<^verbatim>\<open>addItem\<close>, and through \<^verbatim>\<open>handlePointerEvent\<close> at
  the same point of the plane (with dimensions in range).
\<close>

theorem paint_twice:
  assumes "currentTool s = Paint k" and "idx < length (cells (model s))"
    and "ix \<noteq> NaN" and "iz \<noteq> NaN"
    and "currentTool3 t = Paint k'" and "dims_ok (n3 (model3 t)) (cell (model3 t))"
  shows "(\<exists>s1 s2. handleCellAction idx s = Inr s1 \<and>
            cells (model s1) = (cells (model s))[idx := Obj [(''type'', Some (Str (kind_name k)))]] \<and>
            n2 (model s1) = n2 (model s) \<and>
            handleCellAction idx s1 = Inr s2 \<and> model s2 = model s1) \<and>
         items (model3 (addItem k' ix iz t)) =
           filter (not_at ix iz) (items (model3 t)) @
             [[(''type'', Some (IStr (kind_name k'))), (''ix'', Some (INum ix)), (''iz'', Some (INum iz))]] \<and>
         filter (\<lambda>it. \<not> not_at ix iz it) (items (model3 (addItem k' ix iz t))) =
           [[(''type'', Some (IStr (kind_name k'))), (''ix'', Some (INum ix)), (''iz'', Some (INum iz))]] \<and>
         n3 (model3 (addItem k' ix iz t)) = n3 (model3 t) \<and>
         cell (model3 (addItem k' ix iz t)) = cell (model3 t) \<and>
         model3 (addItem k' ix iz (addItem k' ix iz t)) = model3 (addItem k' ix iz t) \<and>
         (\<exists>a b. handlePointerEvent (Some p) t = addItem k' (Fin a) (Fin b) t \<and>
            model3 (handlePointerEvent (Some p) (handlePointerEvent (Some p) t)) =
              model3 (handlePointerEvent (Some p) t))"
proof -
  let ?tile = "Obj [(''type'', Some (Str (kind_name k)))]"
  let ?s1 = "set_cell idx ?tile (saveHistory s)"
  let ?new = "[(''type'', Some (IStr (kind_name k'))), (''ix'', Some (INum ix)), (''iz'', Some (INum iz))]"
  have 1: "handleCellAction idx s = Inr ?s1"
    using assms(1,2) by (rule handleCellAction_paint)
  have w: "cells (model ?s1) = (cells (model s))[idx := ?tile]" "n2 (model ?s1) = n2 (model s)"
    by (simp_all add: set_cell_simps saveHistory_simps)
  have "currentTool ?s1 = Paint k" "idx < length (cells (model ?s1))"
    using assms(1,2) by (simp_all add: set_cell_simps saveHistory_simps)
  then have 2: "handleCellAction idx ?s1 = Inr (set_cell idx ?tile (saveHistory ?s1))"
    by (rule handleCellAction_paint)
  have 3: "model (set_cell idx ?tile (saveHistory ?s1)) = model ?s1"
    by (simp add: model_set_cell saveHistory_simps)
  have a: "\<exists>s1 s2. handleCellAction idx s = Inr s1 \<and>
            cells (model s1) = (cells (model s))[idx := ?tile] \<and>
            n2 (model s1) = n2 (model s) \<and>
            handleCellAction idx s1 = Inr s2 \<and> model s2 = model s1"
    using 1 w 2 3 by blast
  have b: "items (model3 (addItem k' ix iz t)) = filter (not_at ix iz) (items (model3 t)) @ [?new]"
    by (simp add: addItem_simps)
  have nn: "\<not> not_at ix iz ?new" using assms(3,4) by (rule not_at_new_item)
  have c: "filter (\<lambda>it. \<not> not_at ix iz it) (items (model3 (addItem k' ix iz t))) = [?new]"
    unfolding b using nn by simp
  have d: "n3 (model3 (addItem k' ix iz t)) = n3 (model3 t)"
    "cell (model3 (addItem k' ix iz t)) = cell (model3 t)"
    by (simp_all add: addItem_simps)
  have e: "model3 (addItem k' ix iz (addItem k' ix iz t)) = model3 (addItem k' ix iz t)"
    using assms(3,4) by (rule addItem_twice)
  obtain u v where uv: "getGridCoordsFromIntersection (model3 t)
      (to_grid_space (model3 t) (fst p), to_grid_space (model3 t) (snd p)) = (Fin u, Fin v)"
    using hit_coords_finite[OF assms(6)] by blast
  have h1: "handlePointerEvent (Some p) t = addItem k' (Fin u) (Fin v) t"
    using assms(5) uv by (rule handlePointerEvent_paint)
  have "currentTool3 (addItem k' (Fin u) (Fin v) t) = Paint k'"
    using assms(5) by (simp add: addItem_simps)
  moreover have "getGridCoordsFromIntersection (model3 (addItem k' (Fin u) (Fin v) t))
      (to_grid_space (model3 (addItem k' (Fin u) (Fin v) t)) (fst p),
       to_grid_space (model3 (addItem k' (Fin u) (Fin v) t)) (snd p)) = (Fin u, Fin v)"
    using uv by (simp add: getGridCoords_addItem to_grid_space_addItem)
  ultimately have h2: "handlePointerEvent (Some p) (addItem k' (Fin u) (Fin v) t) =
      addItem k' (Fin u) (Fin v) (addItem k' (Fin u) (Fin v) t)"
    by (rule handlePointerEvent_paint)
  have "model3 (handlePointerEvent (Some p) (handlePointerEvent (Some p) t)) =
      model3 (handlePointerEvent (Some p) t)"
    unfolding h1 h2 by (rule addItem_twice) simp_all
  with h1 have f: "\<exists>a b. handlePointerEvent (Some p) t = addItem k' (Fin a) (Fin b) t \<and>
      model3 (handlePointerEvent (Some p) (handlePointerEvent (Some p) t)) =
        model3 (handlePointerEvent (Some p) t)"
    by blast
  from a b c d e f show ?thesis by blast
qed

text \<open>
  On occupied places: cell 0 holds a stand and is painted with a pitch; the 3D model
  holds a stand at cell (11, 11), where the ray meets the plane at (0, 0), and a pitch is
  painted at the same point.
\<close>

theorem paint_twice_witness:
  "(case run2D [SelectTool (Paint Stand), PointerDown 0, PointerUp, SelectTool (Paint Pitch)]
          (init2D None None) of
      Inl _ \<Rightarrow> False
    | Inr s \<Rightarrow>
        cells (model s) ! 0 = Obj [(''type'', Some (Str ''stand''))] \<and>
        (\<exists>s1 s2. handleCellAction 0 s = Inr s1 \<and>
           cells (model s1) ! 0 = Obj [(''type'', Some (Str ''pitch''))] \<and>
           handleCellAction 0 s1 = Inr s2 \<and> model s2 = model s1)) \<and>
   items (model3 (run3D [ToolClick3 (Paint Stand), PointerDown3 (Some (0, 0)), PointerUp3,
                         ToolClick3 (Paint Pitch)] (init3D None None))) =
     [[(''type'', Some (IStr ''stand'')), (''ix'', Some (INum (Fin 11))), (''iz'', Some (INum (Fin 11)))]] \<and>
   items (model3 (handlePointerEvent (Some (0, 0))
      (run3D [ToolClick3 (Paint Stand), PointerDown3 (Some (0, 0)), PointerUp3,
              ToolClick3 (Paint Pitch)] (init3D None None)))) =
     [[(''type'', Some (IStr ''pitch'')), (''ix'', Some (INum (Fin 11))), (''iz'', Some (INum (Fin 11)))]] \<and>
   model3 (handlePointerEvent (Some (0, 0)) (handlePointerEvent (Some (0, 0))
      (run3D [ToolClick3 (Paint Stand), PointerDown3 (Some (0, 0)), PointerUp3,
              ToolClick3 (Paint Pitch)] (init3D None None)))) =
     model3 (handlePointerEvent (Some (0, 0))
      (run3D [ToolClick3 (Paint Stand), PointerDown3 (Some (0, 0)), PointerUp3,
              ToolClick3 (Paint Pitch)] (init3D None None)))"
proof -
  let ?R = "run2D [SelectTool (Paint Stand), PointerDown 0, PointerUp, SelectTool (Paint Pitch)]
          (init2D None None)"
  let ?T = "run3D [ToolClick3 (Paint Stand), PointerDown3 (Some (0, 0)), PointerUp3,
                         ToolClick3 (Paint Pitch)] (init3D None None)"
  let ?stand = "[(''type'', Some (IStr ''stand'')), (''ix'', Some (INum (Fin 11))), (''iz'', Some (INum (Fin 11)))]"
  let ?pitch = "[(''type'', Some (IStr ''pitch'')), (''ix'', Some (INum (Fin 11))), (''iz'', Some (INum (Fin 11)))]"
  have ev: "case ?R of
      Inl _ \<Rightarrow> False
    | Inr s \<Rightarrow>
        cells (model s) ! 0 = Obj [(''type'', Some (Str ''stand''))] \<and>
        currentTool s = Paint Pitch \<and> 0 < length (cells (model s))"
    by code_simp
  then obtain s where s: "?R = Inr s"
    "cells (model s) ! 0 = Obj [(''type'', Some (Str ''stand''))]"
    "currentTool s = Paint Pitch" "0 < length (cells (model s))"
    by (cases ?R) simp_all
  have T: "?T = toolClick3 (Paint Pitch) (pointerup3 (addItem Stand (Fin 11) (Fin 11)
      ((toolClick3 (Paint Stand) (init3D None None))\<lparr>isPointerDown3 := True\<rparr>)))"
    by (simp add: pointerdown3_def toolClick3_def handle_default(1) init3D_default)
  have t: "n3 (model3 ?T) = 24" "cell (model3 ?T) = 2" "currentTool3 ?T = Paint Pitch"
    "items (model3 ?T) = [?stand]"
    unfolding T by (simp_all add: toolClick3_def pointerup3_def addItem_simps init3D_default)
  have d: "dims_ok (n3 (model3 ?T)) (cell (model3 ?T))" unfolding t by (simp add: dims_ok_def)
  have c: "Fin 11 \<noteq> NaN" by simp
  have h: "handlePointerEvent (Some (0, 0)) ?T = addItem Pitch (Fin 11) (Fin 11) ?T"
    using t(1,2,3) by (rule handle_default(1))
  from paint_twice[OF s(3,4) c c t(3) d, of "(0, 0)"] obtain s1 s2 where
    r: "handleCellAction 0 s = Inr s1"
       "cells (model s1) = (cells (model s))[0 := Obj [(''type'', Some (Str (kind_name Pitch)))]]"
       "handleCellAction 0 s1 = Inr s2" "model s2 = model s1"
    and i: "items (model3 (addItem Pitch (Fin 11) (Fin 11) ?T)) =
       filter (not_at (Fin 11) (Fin 11)) (items (model3 ?T)) @
         [[(''type'', Some (IStr (kind_name Pitch))), (''ix'', Some (INum (Fin 11))), (''iz'', Some (INum (Fin 11)))]]"
    and j: "model3 (handlePointerEvent (Some (0, 0)) (handlePointerEvent (Some (0, 0)) ?T)) =
       model3 (handlePointerEvent (Some (0, 0)) ?T)"
    by blast
  have p: "cells (model s1) ! 0 = Obj [(''type'', Some (Str ''pitch''))]"
    using s(4) by (simp add: r(2))
  have a: "case ?R of
      Inl _ \<Rightarrow> False
    | Inr s \<Rightarrow>
        cells (model s) ! 0 = Obj [(''type'', Some (Str ''stand''))] \<and>
        (\<exists>s1 s2. handleCellAction 0 s = Inr s1 \<and>
           cells (model s1) ! 0 = Obj [(''type'', Some (Str ''pitch''))] \<and>
           handleCellAction 0 s1 = Inr s2 \<and> model s2 = model s1)"
    using s(1,2) r(1,3,4) p by auto
  have i': "items (model3 (handlePointerEvent (Some (0, 0)) ?T)) = [?pitch]"
    unfolding h i t(4) by (simp add: not_at_def item_get_def strict_eq_num_def)
  from a t(4) i' j show ?thesis by blast
qed

text \<open>
  C9. In every reachable state of the 2D editor the model's \<open>n\<close> is the grid size,
  \<^verbatim>\<open>cells\<close> has \<open>n * n\<close> entries, one for each index, and every snapshot of the
  history has the same dimension and length, so undo restores a model of the same
  dimension. Every event preserves this (none of them fails), and resize empties the
  history.
\<close>

theorem grid_invariant:
  "(\<exists>s. run2D es (init2D gv pv) = Inr s \<and>
      n2 (model s) = gridSize s \<and>
      length (cells (model s)) = nat (n2 (model s) * n2 (model s)) \<and>
      list_all (snap_ok (n2 (model s))) (history s) \<and>
      n2 (model (undoBtn s)) = n2 (model s) \<and>
      length (cells (model (undoBtn s))) = length (cells (model s))) \<and>
   (grid_inv s0 \<longrightarrow> (\<exists>s'. step2D e s0 = Inr s' \<and> grid_inv s')) \<and>
   history (resizeBtn gv' pv' s0) = []"
proof -
  obtain s where s: "run2D es (init2D gv pv) = Inr s" "grid_inv s"
    using grid_inv_run[OF grid_inv_init] by blast
  obtain u where "step2D Undo s = Inr u" "grid_inv u"
    using grid_inv_step[OF s(2), of Undo] by blast
  then have u: "grid_inv (undoBtn s)" by simp
  have "gridSize (undoBtn s) = gridSize s" by (simp add: undoBtn_def)
  with s(2) u have
    "n2 (model s) = gridSize s \<and>
      length (cells (model s)) = nat (n2 (model s) * n2 (model s)) \<and>
      list_all (snap_ok (n2 (model s))) (history s) \<and>
      n2 (model (undoBtn s)) = n2 (model s) \<and>
      length (cells (model (undoBtn s))) = length (cells (model s))"
    by (simp add: grid_inv_def)
  with s(1) have a: "\<exists>s. run2D es (init2D gv pv) = Inr s \<and>
      n2 (model s) = gridSize s \<and>
      length (cells (model s)) = nat (n2 (model s) * n2 (model s)) \<and>
      list_all (snap_ok (n2 (model s))) (history s) \<and>
      n2 (model (undoBtn s)) = n2 (model s) \<and>
      length (cells (model (undoBtn s))) = length (cells (model s))"
    by blast
  have b: "grid_inv s0 \<longrightarrow> (\<exists>s'. step2D e s0 = Inr s' \<and> grid_inv s')"
    using grid_inv_step by blast
  have c: "history (resizeBtn gv' pv' s0) = []" by (simp add: resizeBtn_def Let_def)
  from a b c show ?thesis by blast
qed

theorem grid_invariant_witness:
  "grid_inv (init2D None None) \<and>
   (\<exists>s'. step2D (PointerDown 0) (init2D None None) = Inr s' \<and> grid_inv s')"
  using grid_invariant[of "[]" None None "init2D None None" "PointerDown 0"] grid_inv_init[of None None]
  by blast

text \<open>
  C6. In every reachable state, \<^verbatim>\<open>JSON.parse(JSON.stringify(model))\<close> gives a model of
  the same dimension whose cells or items are the same as the original's. For the 2D
  editor each cell is the same bare value or an object with the same \<^verbatim>\<open>type\<close> and
  \<^verbatim>\<open>prevType\<close> (a \<^verbatim>\<open>prevType\<close> holding \<^verbatim>\<open>undefined\<close> is left out of the
  document and reads \<^verbatim>\<open>undefined\<close> afterwards as before); a model whose objects hold no
  \<^verbatim>\<open>undefined\<close> is reproduced identically. For the 3D editor, loaded with dimensions
  in range, the copy is identical.
\<close>

theorem json_roundtrip:
  "(\<exists>s. run2D es (init2D gv pv) = Inr s \<and>
      n2 (JSON_parse2 (JSON_stringify2 (model s))) = n2 (model s) \<and>
      length (cells (JSON_parse2 (JSON_stringify2 (model s)))) = length (cells (model s)) \<and>
      same_model (JSON_parse2 (JSON_stringify2 (model s))) (model s)) \<and>
   (list_all plain_cell (cells m) \<longrightarrow> JSON_parse2 (JSON_stringify2 m) = m) \<and>
   (load_ok gv3 cv \<longrightarrow>
      JSON_parse3 (JSON_stringify3 (model3 (run3D es3 (init3D gv3 cv)))) =
        model3 (run3D es3 (init3D gv3 cv)))"
proof -
  obtain s where s: "run2D es (init2D gv pv) = Inr s" "keys_inv s"
    using reachable2D by blast
  have "list_all wf_cell (cells (model s))" using s(2) by (simp add: keys_inv_def)
  then have "same_model (JSON_parse2 (JSON_stringify2 (model s))) (model s)"
    by (rule same_model_roundtrip)
  moreover have "n2 (JSON_parse2 (JSON_stringify2 (model s))) = n2 (model s)"
    "length (cells (JSON_parse2 (JSON_stringify2 (model s)))) = length (cells (model s))"
    by (simp_all add: JSON_parse2_def JSON_stringify2_def)
  ultimately have a: "\<exists>s. run2D es (init2D gv pv) = Inr s \<and>
      n2 (JSON_parse2 (JSON_stringify2 (model s))) = n2 (model s) \<and>
      length (cells (JSON_parse2 (JSON_stringify2 (model s)))) = length (cells (model s)) \<and>
      same_model (JSON_parse2 (JSON_stringify2 (model s))) (model s)"
    using s(1) by blast
  have b: "list_all plain_cell (cells m) \<longrightarrow> JSON_parse2 (JSON_stringify2 m) = m"
    by (simp add: plain_model_roundtrip)
  have c: "load_ok gv3 cv \<longrightarrow>
      JSON_parse3 (JSON_stringify3 (model3 (run3D es3 (init3D gv3 cv)))) =
        model3 (run3D es3 (init3D gv3 cv))"
    by (simp add: reachable3D_roundtrip)
  from a b c show ?thesis by blast
qed

text \<open>
  On a 2D grid holding a Selected cell that records a pitch and a painted stand, and on
  a 3D model holding a pitch.
\<close>

theorem json_roundtrip_witness:
  "(case run2D [PointerDown 0, PointerUp, SelectTool (Paint Stand), PointerDown 1, PointerUp,
                SelectTool Select, PointerDown 0] (init2D None None) of
      Inl _ \<Rightarrow> False
    | Inr s \<Rightarrow>
        cells (model s) ! 0 = Obj [(''type'', Some (Str ''selected'')), (''prevType'', Some (Str ''pitch''))] \<and>
        cells (model s) ! 1 = Obj [(''type'', Some (Str ''stand''))] \<and>
        list_all plain_cell (cells (model s)) \<and>
        JSON_parse2 (JSON_stringify2 (model s)) = model s) \<and>
   load_ok None None \<and>
   items (model3 (run3D [PointerDown3 (Some (0, 0))] (init3D None None))) =
     [[(''type'', Some (IStr ''pitch'')), (''ix'', Some (INum (Fin 11))), (''iz'', Some (INum (Fin 11)))]] \<and>
   JSON_parse3 (JSON_stringify3 (model3 (run3D [PointerDown3 (Some (0, 0))] (init3D None None)))) =
     model3 (run3D [PointerDown3 (Some (0, 0))] (init3D None None))"
proof -
  let ?R = "run2D [PointerDown 0, PointerUp, SelectTool (Paint Stand), PointerDown 1, PointerUp,
                SelectTool Select, PointerDown 0] (init2D None None)"
  have ev: "case ?R of
      Inl _ \<Rightarrow> False
    | Inr s \<Rightarrow>
        cells (model s) ! 0 = Obj [(''type'', Some (Str ''selected'')), (''prevType'', Some (Str ''pitch''))] \<and>
        cells (model s) ! 1 = Obj [(''type'', Some (Str ''stand''))] \<and>
        list_all plain_cell (cells (model s))"
    by code_simp
  then obtain s where s: "?R = Inr s"
    "cells (model s) ! 0 = Obj [(''type'', Some (Str ''selected'')), (''prevType'', Some (Str ''pitch''))]"
    "cells (model s) ! 1 = Obj [(''type'', Some (Str ''stand''))]"
    "list_all plain_cell (cells (model s))"
    by (cases ?R) simp_all
  have rt: "list_all plain_cell (cells (model s)) \<longrightarrow> JSON_parse2 (JSON_stringify2 (model s)) = model s"
    and rt3: "load_ok None None \<longrightarrow>
      JSON_parse3 (JSON_stringify3 (model3 (run3D [PointerDown3 (Some (0, 0))] (init3D None None)))) =
        model3 (run3D [PointerDown3 (Some (0, 0))] (init3D None None))"
    using json_roundtrip[of "[]" None None "model s" None None "[PointerDown3 (Some (0, 0))]"]
    by blast+
  have a: "case ?R of
      Inl _ \<Rightarrow> False
    | Inr s \<Rightarrow>
        cells (model s) ! 0 = Obj [(''type'', Some (Str ''selected'')), (''prevType'', Some (Str ''pitch''))] \<and>
        cells (model s) ! 1 = Obj [(''type'', Some (Str ''stand''))] \<and>
        list_all plain_cell (cells (model s)) \<and>
        JSON_parse2 (JSON_stringify2 (model s)) = model s"
    using s rt by simp
  from a load_ok_default rt3 items_paint_at_origin show ?thesis by blast
qed

text \<open>
  C10. Clear keeps the grid size and the cell size, pushes one snapshot of the model as
  it was and empties the cells (2D) or the items (3D), keeping the model's dimension. An
  undo right after it brings back the layout from before the clear at the same dimension:
  in the 3D editor (loaded with dimensions in range) the identical model, in the 2D
  editor the same cells (identical when no object holds \<^verbatim>\<open>undefined\<close>).
\<close>

theorem clear_then_undo:
  "(\<exists>s. run2D es (init2D gv pv) = Inr s \<and>
      gridSize (clearBtn s) = gridSize s \<and> cellPx (clearBtn s) = cellPx s \<and>
      n2 (model (clearBtn s)) = n2 (model s) \<and>
      cells (model (clearBtn s)) = replicate (nat (n2 (model s) * n2 (model s))) empty_tile \<and>
      history (clearBtn s) = push_capped 100 (history s) (JSON_stringify2 (model s)) \<and>
      last (history (clearBtn s)) = JSON_stringify2 (model s) \<and>
      gridSize (undoBtn (clearBtn s)) = gridSize s \<and>
      cellPx (undoBtn (clearBtn s)) = cellPx s \<and>
      same_model (model (undoBtn (clearBtn s))) (model s)) \<and>
   (list_all plain_cell (cells (model s0)) \<longrightarrow> model (undoBtn (clearBtn s0)) = model s0) \<and>
   gridSize3 (clearBtn3 (run3D es3 (init3D gv3 cv))) = gridSize3 (run3D es3 (init3D gv3 cv)) \<and>
   cellSize (clearBtn3 (run3D es3 (init3D gv3 cv))) = cellSize (run3D es3 (init3D gv3 cv)) \<and>
   n3 (model3 (clearBtn3 (run3D es3 (init3D gv3 cv)))) = n3 (model3 (run3D es3 (init3D gv3 cv))) \<and>
   cell (model3 (clearBtn3 (run3D es3 (init3D gv3 cv)))) = cell (model3 (run3D es3 (init3D gv3 cv))) \<and>
   items (model3 (clearBtn3 (run3D es3 (init3D gv3 cv)))) = [] \<and>
   history3 (clearBtn3 (run3D es3 (init3D gv3 cv))) =
     push_capped 200 (history3 (run3D es3 (init3D gv3 cv)))
       (JSON_stringify3 (model3 (run3D es3 (init3D gv3 cv)))) \<and>
   (load_ok gv3 cv \<longrightarrow>
      model3 (undoBtn3 (clearBtn3 (run3D es3 (init3D gv3 cv)))) = model3 (run3D es3 (init3D gv3 cv)))"
proof -
  obtain s where s: "run2D es (init2D gv pv) = Inr s" "grid_inv s" "keys_inv s"
    using reachable2D by blast
  have n: "n2 (model s) = gridSize s" using s(2) by (simp add: grid_inv_def)
  have h: "history (clearBtn s) = push_capped 100 (history s) (JSON_stringify2 (model s))"
    by (simp add: clearBtn_def Let_def saveHistory_simps)
  have ne: "history (clearBtn s) \<noteq> []"
    unfolding h by (cases "history s") (simp_all add: push_capped_def Let_def)
  have 1: "gridSize (clearBtn s) = gridSize s" "cellPx (clearBtn s) = cellPx s"
    by (simp_all add: clearBtn_def Let_def saveHistory_simps)
  have 2: "n2 (model (clearBtn s)) = n2 (model s)"
    "cells (model (clearBtn s)) = replicate (nat (n2 (model s) * n2 (model s))) empty_tile"
    using n by (simp_all add: clearBtn_def Let_def saveHistory_simps createEmptyModel_def)
  have 3: "last (history (clearBtn s)) = JSON_stringify2 (model s)"
    unfolding h by (simp add: last_push_capped)
  have 4: "gridSize (undoBtn (clearBtn s)) = gridSize s" "cellPx (undoBtn (clearBtn s)) = cellPx s"
    using 1 by (simp_all add: undoBtn_def)
  have "list_all wf_cell (cells (model s))" using s(3) by (simp add: keys_inv_def)
  then have 5: "same_model (model (undoBtn (clearBtn s))) (model s)"
    by (simp add: undo_after_clear same_model_roundtrip)
  have a: "\<exists>s. run2D es (init2D gv pv) = Inr s \<and>
      gridSize (clearBtn s) = gridSize s \<and> cellPx (clearBtn s) = cellPx s \<and>
      n2 (model (clearBtn s)) = n2 (model s) \<and>
      cells (model (clearBtn s)) = replicate (nat (n2 (model s) * n2 (model s))) empty_tile \<and>
      history (clearBtn s) = push_capped 100 (history s) (JSON_stringify2 (model s)) \<and>
      last (history (clearBtn s)) = JSON_stringify2 (model s) \<and>
      gridSize (undoBtn (clearBtn s)) = gridSize s \<and>
      cellPx (undoBtn (clearBtn s)) = cellPx s \<and>
      same_model (model (undoBtn (clearBtn s))) (model s)"
    using s(1) 1 2 h 3 4 5 by blast
  have b: "list_all plain_cell (cells (model s0)) \<longrightarrow> model (undoBtn (clearBtn s0)) = model s0"
    by (simp add: undo_after_clear plain_model_roundtrip)
  let ?t = "run3D es3 (init3D gv3 cv)"
  have c: "gridSize3 (clearBtn3 ?t) = gridSize3 ?t" "cellSize (clearBtn3 ?t) = cellSize ?t"
    "n3 (model3 (clearBtn3 ?t)) = n3 (model3 ?t)" "cell (model3 (clearBtn3 ?t)) = cell (model3 ?t)"
    "items (model3 (clearBtn3 ?t)) = []"
    "history3 (clearBtn3 ?t) = push_capped 200 (history3 ?t) (JSON_stringify3 (model3 ?t))"
    by (simp_all add: clearBtn3_def Let_def saveHistory3_simps set_items_simps)
  have d: "load_ok gv3 cv \<longrightarrow> model3 (undoBtn3 (clearBtn3 ?t)) = model3 ?t"
    by (simp add: undo_after_clear3 reachable3D_roundtrip)
  from a b c d show ?thesis by blast
qed

text \<open>
  On a 2D grid holding a pitch and a stand, and on a 3D model holding a pitch: clear
  empties them and the undo brings them back.
\<close>

theorem clear_then_undo_witness:
  "(case run2D [PointerDown 0, PointerUp, SelectTool (Paint Stand), PointerDown 1] (init2D None None) of
      Inl _ \<Rightarrow> False
    | Inr s \<Rightarrow>
        cells (model s) ! 0 = Obj [(''type'', Some (Str ''pitch''))] \<and>
        cells (model s) ! 1 = Obj [(''type'', Some (Str ''stand''))] \<and>
        cells (model (clearBtn s)) ! 0 = empty_tile \<and>
        cells (model (clearBtn s)) ! 1 = empty_tile \<and>
        list_all plain_cell (cells (model s)) \<and>
        model (undoBtn (clearBtn s)) = model s) \<and>
   load_ok None None \<and>
   items (model3 (run3D [PointerDown3 (Some (0, 0))] (init3D None None))) =
     [[(''type'', Some (IStr ''pitch'')), (''ix'', Some (INum (Fin 11))), (''iz'', Some (INum (Fin 11)))]] \<and>
   items (model3 (clearBtn3 (run3D [PointerDown3 (Some (0, 0))] (init3D None None)))) = [] \<and>
   model3 (undoBtn3 (clearBtn3 (run3D [PointerDown3 (Some (0, 0))] (init3D None None)))) =
     model3 (run3D [PointerDown3 (Some (0, 0))] (init3D None None))"
proof -
  let ?R = "run2D [PointerDown 0, PointerUp, SelectTool (Paint Stand), PointerDown 1] (init2D None None)"
  let ?T = "run3D [PointerDown3 (Some (0, 0))] (init3D None None)"
  have ev: "case ?R of
      Inl _ \<Rightarrow> False
    | Inr s \<Rightarrow>
        cells (model s) ! 0 = Obj [(''type'', Some (Str ''pitch''))] \<and>
        cells (model s) ! 1 = Obj [(''type'', Some (Str ''stand''))] \<and>
        cells (model (clearBtn s)) ! 0 = empty_tile \<and>
        cells (model (clearBtn s)) ! 1 = empty_tile \<and>
        list_all plain_cell (cells (model s))"
    by code_simp
  then obtain s where s: "?R = Inr s"
    "cells (model s) ! 0 = Obj [(''type'', Some (Str ''pitch''))]"
    "cells (model s) ! 1 = Obj [(''type'', Some (Str ''stand''))]"
    "cells (model (clearBtn s)) ! 0 = empty_tile"
    "cells (model (clearBtn s)) ! 1 = empty_tile"
    "list_all plain_cell (cells (model s))"
    by (cases ?R) simp_all
  have rt: "list_all plain_cell (cells (model s)) \<longrightarrow> model (undoBtn (clearBtn s)) = model s"
    and e3: "items (model3 (clearBtn3 ?T)) = []"
    and rt3: "load_ok None None \<longrightarrow> model3 (undoBtn3 (clearBtn3 ?T)) = model3 ?T"
    using clear_then_undo[of "[]" None None s "[PointerDown3 (Some (0, 0))]" None None]
    by blast+
  have a: "case ?R of
      Inl _ \<Rightarrow> False
    | Inr s \<Rightarrow>
        cells (model s) ! 0 = Obj [(''type'', Some (Str ''pitch''))] \<and>
        cells (model s) ! 1 = Obj [(''type'', Some (Str ''stand''))] \<and>
        cells (model (clearBtn s)) ! 0 = empty_tile \<and>
        cells (model (clearBtn s)) ! 1 = empty_tile \<and>
        list_all plain_cell (cells (model s)) \<and>
        model (undoBtn (clearBtn s)) = model s"
    using s rt by simp
  from a load_ok_default items_paint_at_origin e3 rt3 show ?thesis by blast
qed

text \<open>
  C5. Selecting a selected cell should restore a tile of the kind recorded at selection.
  The select branch records the kind string in \<^verbatim>\<open>prevType\<close> and on the second select
  stores that string itself in the cell, not an object with that \<^verbatim>\<open>type\<close>. On the
  default grid: paint a pitch at cell 0, choose the select tool, select cell 0 twice; the
  cell is then the bare string \<^verbatim>\<open>'pitch'\<close>, whose \<^verbatim>\<open>type\<close> reads \<^verbatim>\<open>undefined\<close>.
\<close>

theorem select_twice_leaves_bare_string:
  "map_sum id (\<lambda>s. (cells (model s) ! 0, cell_get (cells (model s) ! 0) ''type''))
     (run2D [PointerDown 0, PointerUp, SelectTool Select, PointerDown 0, PointerUp, PointerDown 0]
        (init2D None None)) =
   Inr (Prim (Str ''pitch''), None)"
  by code_simp

text \<open>
  C1. A tool switch in the middle of a drag must not paint with the new tool. The 2D
  editor records the tool at \<^verbatim>\<open>pointerdown\<close> and \<^verbatim>\<open>onPointerEnter\<close> paints only
  while the current tool is the recorded one (shown above). The 3D editor records no stroke tool:
  its \<^verbatim>\<open>pointermove\<close> listener paints with whatever tool is current. With the default
  24 by 24 grid of cell size 2: the pointer goes down with the pitch tool where the ray
  meets the plane at (0, 0), which is cell (11, 11); the stand tool is chosen while the
  button is held; the pointer moves to (2, 0), cell (12, 11), and a stand is placed there
  in the same stroke.
\<close>

theorem drag_after_tool_switch_3d:
  "items (model3 (run3D
      [PointerDown3 (Some (0, 0)), ToolClick3 (Paint Stand), PointerMove3 (Some (2, 0))]
      (init3D None None))) =
   [[(''type'', Some (IStr ''pitch'')), (''ix'', Some (INum (Fin 11))), (''iz'', Some (INum (Fin 11)))],
    [(''type'', Some (IStr ''stand'')), (''ix'', Some (INum (Fin 12))), (''iz'', Some (INum (Fin 11)))]]"
proof -
  let ?s1 = "addItem Pitch (Fin 11) (Fin 11) ((init3D None None)\<lparr>isPointerDown3 := True\<rparr>)"
  let ?s2 = "toolClick3 (Paint Stand) ?s1"
  have 1: "pointerdown3 (Some (0, 0)) (init3D None None) = ?s1"
    by (simp add: pointerdown3_def handle_default(1) init3D_default)
  have m2: "n3 (model3 ?s2) = 24" "cell (model3 ?s2) = 2" "currentTool3 ?s2 = Paint Stand"
    "isPointerDown3 ?s2"
    by (simp_all add: toolClick3_def addItem_simps addItem_flags init3D_default)
  have i2: "items (model3 ?s2) =
      [[(''type'', Some (IStr ''pitch'')), (''ix'', Some (INum (Fin 11))), (''iz'', Some (INum (Fin 11)))]]"
    by (simp add: toolClick3_def addItem_simps init3D_default)
  have 3: "pointermove3 (Some (2, 0)) ?s2 = addItem Stand (Fin 12) (Fin 11) ?s2"
    using m2 by (simp add: pointermove3_def handle_default(2))
  have "items (model3 (addItem Stand (Fin 12) (Fin 11) ?s2)) =
      [[(''type'', Some (IStr ''pitch'')), (''ix'', Some (INum (Fin 11))), (''iz'', Some (INum (Fin 11)))],
       [(''type'', Some (IStr ''stand'')), (''ix'', Some (INum (Fin 12))), (''iz'', Some (INum (Fin 11)))]]"
    unfolding addItem_simps i2 by (simp add: not_at_def item_get_def strict_eq_num_def)
  then show ?thesis by (simp add: 1 3)
qed

end
